theory Spec2Isabelle
  imports Complex_Main "HOL-Library.Multiset"
begin

section \<open>Data model (src/types.ts)\<close>

text \<open>
  The three string unions of \<^verbatim>\<open>types.ts\<close> are datatypes; the interfaces are records.
  Timestamps are the integer millisecond counts that \<^verbatim>\<open>Date.now()\<close> returns. An
  optional field (\<^verbatim>\<open>completedAt?: number\<close>) is an \<open>option\<close>; \<^verbatim>\<open>createdAt\<close> is read and
  written on tasks throughout \<^verbatim>\<open>App.tsx\<close> although the interface does not declare it,
  so it is optional here as well.
\<close>

datatype TimeBlock = Morning | Afternoon | Evening

datatype TaskStatus = Active | Completed

datatype ColorTheme = Sky | Violet | Orange | Rose | Emerald | Amber | Slate

record Category =
  cat_id :: string
  cat_label :: string
  cat_icon :: string
  cat_theme :: ColorTheme

record Task =
  task_id :: string
  title :: string
  categoryId :: string
  timeBlock :: TimeBlock
  status :: TaskStatus
  completedAt :: "int option"
  createdAt :: "int option"

record Note =
  note_id :: string
  note_content :: string
  note_createdAt :: int
  note_theme :: ColorTheme

text \<open>
  JavaScript truthiness of an optional number, as tested by \<^verbatim>\<open>!task.completedAt\<close> and
  \<^verbatim>\<open>task.createdAt || Date.now()\<close>: \<^verbatim>\<open>undefined\<close> and \<^verbatim>\<open>0\<close> are falsy.
\<close>

definition truthy :: "int option \<Rightarrow> bool" where
  "truthy v = (case v of None \<Rightarrow> False | Some n \<Rightarrow> n \<noteq> 0)"

section \<open>Board visibility (src/App.tsx, lines 154--191)\<close>

definition msPerDay :: int where
  "msPerDay = 24 * 60 * 60 * 1000"

text \<open>
  \<^verbatim>\<open>d.setHours(0, 0, 0, 0); d.getTime()\<close> on a host whose \<^verbatim>\<open>getTimezoneOffset()\<close> is the
  constant \<open>off\<close> (minutes, UTC minus local time, so \<open>-480\<close> at UTC+8): the instant of local
  midnight of the local calendar day that contains the instant \<open>x\<close>.
\<close>

definition setHours0 :: "int \<Rightarrow> int \<Rightarrow> int" where
  "setHours0 off x = ((x - off * 60 * 1000) div msPerDay) * msPerDay + off * 60 * 1000"

text \<open>
  \<^verbatim>\<open>getBeijingTodayStart\<close>. Its two readings of the environment are parameters:
  \<open>now\<close> is \<^verbatim>\<open>new Date().getTime()\<close> and \<open>userOffsetMinutes\<close> is
  \<^verbatim>\<open>now.getTimezoneOffset()\<close>.
\<close>

definition getBeijingTodayStart :: "int \<Rightarrow> int \<Rightarrow> int" where
  "getBeijingTodayStart now userOffsetMinutes =
     (let beijingOffsetMinutes = - 8 * 60;
          diffMinutes = beijingOffsetMinutes - userOffsetMinutes;
          beijingTime = now + diffMinutes * 60 * 1000
      in setHours0 userOffsetMinutes beijingTime)"

text \<open>
  \<^verbatim>\<open>shouldHideTask\<close> and the lane query \<^verbatim>\<open>getTasksByBlock\<close>. Every call of the predicate
  reads the clock through \<open>getBeijingTodayStart\<close>; one pass over the task list is taken
  with one reading.
\<close>

definition shouldHideTask :: "int \<Rightarrow> int \<Rightarrow> Task \<Rightarrow> bool" where
  "shouldHideTask now userOffsetMinutes task =
     (if status task \<noteq> Completed then False
      else if \<not> truthy (completedAt task) then False
      else the (completedAt task) < getBeijingTodayStart now userOffsetMinutes)"

definition getTasksByBlock :: "int \<Rightarrow> int \<Rightarrow> Task list \<Rightarrow> TimeBlock \<Rightarrow> Task list" where
  "getTasksByBlock now userOffsetMinutes tasks block =
     filter (\<lambda>task. timeBlock task = block \<and> \<not> shouldHideTask now userOffsetMinutes task) tasks"

text \<open>
  The reference day of the specification: the instant at which the current calendar day
  began on a clock that runs eight hours ahead of UTC. This definition follows the
  specification's words, not the code; it is what \<open>getBeijingTodayStart\<close> is compared with.
\<close>

definition utc8DayStart :: "int \<Rightarrow> int" where
  "utc8DayStart now = ((now + 8 * 60 * 60 * 1000) div msPerDay) * msPerDay - 8 * 60 * 60 * 1000"

text \<open>
  The numbers of \<^verbatim>\<open>calculateProgress\<close>. A JavaScript number is a binary64 value; a finite one
  is given by the rational it stands for (the sign of zero is not kept). \<open>binary64\<close> is the
  rounding that every arithmetic operation of the engine ends with: to the nearest
  binary64 value, a tie going to the value whose last significand bit is even. The
  significand has 53 bits, so in the binade \<open>[2\<^sup>e, 2\<^sup>e\<^sup>+\<^sup>1)\<close> the values are the multiples of
  \<open>2\<^sup>e\<^sup>-\<^sup>5\<^sup>2\<close>; below \<open>2\<^sup>-\<^sup>1\<^sup>0\<^sup>2\<^sup>2\<close> the spacing stays \<open>2\<^sup>-\<^sup>1\<^sup>0\<^sup>7\<^sup>4\<close> (subnormal values), and a result
  of \<open>2\<^sup>1\<^sup>0\<^sup>2\<^sup>4\<close> or more is an infinity.
\<close>

datatype jsnum = Num rat | NaN | PosInf | NegInf

fun log2floor :: "nat \<Rightarrow> nat" where
  "log2floor n = (if n < 2 then 0 else Suc (log2floor (n div 2)))"

definition log2ceil :: "nat \<Rightarrow> nat" where
  "log2ceil n = (if n \<le> 1 then 0 else Suc (log2floor (n - 1)))"

text \<open>The exponent \<open>e\<close> with \<open>2\<^sup>e \<le> q < 2\<^sup>e\<^sup>+\<^sup>1\<close>, for a positive \<open>q\<close>.\<close>

definition binade :: "rat \<Rightarrow> int" where
  "binade q =
     (if 1 \<le> q then int (log2floor (nat \<lfloor>q\<rfloor>)) else - int (log2ceil (nat \<lceil>1 / q\<rceil>)))"

definition roundTiesToEven :: "rat \<Rightarrow> int" where
  "roundTiesToEven y =
     (let f = \<lfloor>y\<rfloor>; r = y - of_int f
      in if r < 1 / 2 then f else if 1 / 2 < r then f + 1 else if even f then f else f + 1)"

definition binary64 :: "rat \<Rightarrow> jsnum" where
  "binary64 q =
     (if q = 0 then Num 0
      else let e = max (binade \<bar>q\<bar>) (- 1022);
               ulp = 2 powi (e - 52);
               r = of_int (roundTiesToEven (\<bar>q\<bar> / ulp)) * ulp
           in if 2 powi 1024 \<le> r then (if 0 < q then PosInf else NegInf)
              else Num (sgn q * r))"

text \<open>
  The quotient of two array lengths (integers below \<open>2\<^sup>3\<^sup>2\<close>, which are binary64 values),
  and the product of a number with a finite binary64 value \<open>k\<close>. Division by zero does not
  raise in JavaScript: it yields \<^verbatim>\<open>NaN\<close> or \<^verbatim>\<open>Infinity\<close>.
\<close>

definition js_div :: "nat \<Rightarrow> nat \<Rightarrow> jsnum" where
  "js_div a b =
     (if b = 0 then (if a = 0 then NaN else PosInf) else binary64 (of_nat a / of_nat b))"

fun js_times :: "jsnum \<Rightarrow> rat \<Rightarrow> jsnum" where
  "js_times (Num q) k = binary64 (q * k)"
| "js_times NaN k = NaN"
| "js_times PosInf k = (if k = 0 then NaN else if 0 < k then PosInf else NegInf)"
| "js_times NegInf k = (if k = 0 then NaN else if 0 < k then NegInf else PosInf)"

definition calculateProgress :: "int \<Rightarrow> int \<Rightarrow> Task list \<Rightarrow> jsnum" where
  "calculateProgress now userOffsetMinutes tasks =
     (let visibleTasks = filter (\<lambda>task. \<not> shouldHideTask now userOffsetMinutes task) tasks
      in if length visibleTasks = 0 then Num 0
         else let completed = length (filter (\<lambda>t. status t = Completed) visibleTasks)
              in js_times (js_div completed (length visibleTasks)) 100)"

section \<open>Status toggle (src/App.tsx, lines 193--207)\<close>

text \<open>
  \<^verbatim>\<open>handleToggleStatus\<close> maps over the list and reads \<^verbatim>\<open>Date.now()\<close> inside the callback, once
  for each element it rewrites. The clock is the parameter \<open>now\<close>, indexed by the element's
  position, so that no two readings are assumed equal.
\<close>

definition handleToggleStatus :: "(nat \<Rightarrow> int) \<Rightarrow> string \<Rightarrow> Task list \<Rightarrow> Task list" where
  "handleToggleStatus now ident prev =
     map (\<lambda>(i, t).
            if task_id t = ident then
              (let newStatus = (if status t = Active then Completed else Active)
               in t\<lparr>status := newStatus,
                    completedAt := (if newStatus = Completed then Some (now i) else None)\<rparr>)
            else t)
         (enumerate 0 prev)"

section \<open>Numbers as strings\<close>

text \<open>
  Decimal rendering of an integer, as a template literal and \<^verbatim>\<open>toString()\<close> produce it
  for the integers an index or a clock can be.
\<close>

definition digit_char :: "nat \<Rightarrow> char" where
  "digit_char d = ''0123456789'' ! d"

fun show_nat :: "nat \<Rightarrow> string" where
  "show_nat n =
     (if n < 10 then [digit_char n] else show_nat (n div 10) @ [digit_char (n mod 10)])"

definition show_int :: "int \<Rightarrow> string" where
  "show_int i = (if i < 0 then CHR ''-'' # show_nat (nat (- i)) else show_nat (nat i))"

section \<open>Export and import (src/utils/export.ts)\<close>

datatype error = TypeError | SyntaxError | Error string

section \<open>Drag and drop (src/App.tsx, lines 356--434)\<close>

text \<open>
  A drag event as the two handlers read it: the id of the dragged item, and the drop
  target if there is one, with its id and \<^verbatim>\<open>over.data.current?.sortable?.containerId\<close>.
  The handlers read the task list they closed over and pass an updater to \<^verbatim>\<open>setTasks\<close>;
  the updater is applied to that same list.
\<close>

record OverTarget =
  over_id :: string
  containerId :: "string option"

record DragEvent =
  active_id :: string
  over :: "OverTarget option"

text \<open>
  A time block is a string at run time. \<open>timeBlockName\<close> is that string, and
  \<open>asTimeBlock\<close> is the cast \<^verbatim>\<open>overId as TimeBlock\<close>, which the handler applies only to one of
  the three lane names.
\<close>

definition timeBlockName :: "TimeBlock \<Rightarrow> string" where
  "timeBlockName b = (case b of Morning \<Rightarrow> ''morning'' | Afternoon \<Rightarrow> ''afternoon''
                      | Evening \<Rightarrow> ''evening'')"

definition asTimeBlock :: "string \<Rightarrow> TimeBlock" where
  "asTimeBlock s = (if s = ''morning'' then Morning else if s = ''afternoon'' then Afternoon
                    else Evening)"

definition handleDragOver :: "DragEvent \<Rightarrow> Task list \<Rightarrow> Task list" where
  "handleDragOver event tasks =
     (case over event of
        None \<Rightarrow> tasks
      | Some ov \<Rightarrow>
          (let activeId = active_id event;
               overId = over_id ov;
               activeTask = find (\<lambda>t. task_id t = activeId) tasks;
               overTask = find (\<lambda>t. task_id t = overId) tasks
           in case activeTask of
                None \<Rightarrow> tasks
              | Some activeT \<Rightarrow>
                  if containerId ov \<noteq> Some ''active'' \<and>
                     overId \<in> set [''morning'', ''afternoon'', ''evening'']
                  then (if timeBlockName (timeBlock activeT) \<noteq> overId
                        then map (\<lambda>t. if task_id t = activeId
                                       then t\<lparr>timeBlock := asTimeBlock overId\<rparr> else t) tasks
                        else tasks)
                  else (case overTask of
                          Some overT \<Rightarrow>
                            if timeBlock activeT \<noteq> timeBlock overT
                            then map (\<lambda>t. if task_id t = activeId
                                           then t\<lparr>timeBlock := timeBlock overT\<rparr> else t) tasks
                            else tasks
                        | None \<Rightarrow> tasks)))"

text \<open>\<^verbatim>\<open>Array.prototype.findIndex\<close>: the first position that satisfies \<open>P\<close>, or \<open>-1\<close>.\<close>

fun findIndex :: "('a \<Rightarrow> bool) \<Rightarrow> 'a list \<Rightarrow> int" where
  "findIndex P [] = - 1"
| "findIndex P (x # xs) =
     (if P x then 0 else (let r = findIndex P xs in if r < 0 then - 1 else r + 1))"

text \<open>
  Modelled from the spec: \<^verbatim>\<open>arrayMove\<close> is imported from the drag-and-drop library and is not
  under \<^verbatim>\<open>src/\<close>. The specification calls it a standard array move: remove at the old
  index, insert at the new index. Both steps are \<^verbatim>\<open>Array.prototype.splice\<close> calls on a copy,
  so an index is read as \<^verbatim>\<open>splice\<close> reads it (\<open>spliceStart\<close>: a negative index counts from the
  end, an index past the end is the end), and a negative target index is first counted
  from the end of the array as it was before the removal. When the old index addresses
  no element, the library inserts \<^verbatim>\<open>undefined\<close>; the result is then not a list of tasks,
  and the model returns \<open>None\<close>.
\<close>

definition spliceStart :: "int \<Rightarrow> nat \<Rightarrow> nat" where
  "spliceStart start len = (if start < 0 then nat (max (int len + start) 0) else min (nat start) len)"

definition arrayMove :: "'a list \<Rightarrow> int \<Rightarrow> int \<Rightarrow> 'a list option" where
  "arrayMove array from to =
     (let len = length array;
          target = (if to < 0 then int len + to else to);
          removeAt = spliceStart from len
      in if removeAt < len then
           (let item = array ! removeAt;
                rest = take removeAt array @ drop (Suc removeAt) array;
                insertAt = spliceStart target (length rest)
            in Some (take insertAt rest @ [item] @ drop insertAt rest))
         else None)"

text \<open>
  \<^verbatim>\<open>handleDragEnd\<close>, as far as the task list goes (it also clears the id of the dragged item
  and plays a sound). The two indices are positions in the visible lane list of
  \<open>getTasksByBlock\<close>; the move is applied to all items of the lane.
\<close>

definition handleDragEnd :: "int \<Rightarrow> int \<Rightarrow> DragEvent \<Rightarrow> Task list \<Rightarrow> Task list option" where
  "handleDragEnd now userOffsetMinutes event tasks =
     (case over event of
        None \<Rightarrow> Some tasks
      | Some ov \<Rightarrow>
          (let activeIdVal = active_id event;
               overId = over_id ov;
               activeTask = find (\<lambda>t. task_id t = activeIdVal) tasks;
               overTask = find (\<lambda>t. task_id t = overId) tasks
           in case (activeTask, overTask) of
                (Some activeT, Some overT) \<Rightarrow>
                  if timeBlock activeT = timeBlock overT then
                    (let blockTasks = getTasksByBlock now userOffsetMinutes tasks (timeBlock activeT);
                         oldIndex = findIndex (\<lambda>t. task_id t = activeIdVal) blockTasks;
                         newIndex = findIndex (\<lambda>t. task_id t = overId) blockTasks
                     in if oldIndex \<noteq> newIndex then
                          (let currentBlockItems =
                                 filter (\<lambda>t. timeBlock t = timeBlock activeT) tasks;
                               otherItems = filter (\<lambda>t. timeBlock t \<noteq> timeBlock activeT) tasks
                           in case arrayMove currentBlockItems oldIndex newIndex of
                                Some reorderedBlockItems \<Rightarrow> Some (otherItems @ reorderedBlockItems)
                              | None \<Rightarrow> None)
                        else Some tasks)
                  else Some tasks
              | _ \<Rightarrow> Some tasks))"

section \<open>Application state and its handlers (src/App.tsx)\<close>

text \<open>
  The three \<^verbatim>\<open>useState\<close> lists of the component. A handler is a function from the state to
  the state it sets; the writes to the object store that accompany each update are not
  part of the in-memory state and are left out. Strings outside ASCII are given as their
  UTF-8 bytes.
\<close>

record AppState =
  categories :: "Category list"
  tasks :: "Task list"
  quickNotes :: "Note list"

definition DEFAULT_CATEGORIES :: "Category list" where
  "DEFAULT_CATEGORIES =
     [\<lparr>cat_id = ''cat1'',
       cat_label = [CHR 0xE9, CHR 0xBB, CHR 0x98, CHR 0xE8, CHR 0xAE, CHR 0xA4,
                    CHR 0xE5, CHR 0x88, CHR 0x86, CHR 0xE5, CHR 0x8C, CHR 0xBA] @ ''1'',
       cat_icon = [CHR 0xF0, CHR 0x9F, CHR 0x93, CHR 0x9A], cat_theme = Amber\<rparr>,
      \<lparr>cat_id = ''cat2'',
       cat_label = [CHR 0xE9, CHR 0xBB, CHR 0x98, CHR 0xE8, CHR 0xAE, CHR 0xA4,
                    CHR 0xE5, CHR 0x88, CHR 0x86, CHR 0xE5, CHR 0x8C, CHR 0xBA] @ ''2'',
       cat_icon = [CHR 0xF0, CHR 0x9F, CHR 0xA5, CHR 0x90], cat_theme = Rose\<rparr>]"

definition INITIAL_TASKS :: "Task list" where
  "INITIAL_TASKS = []"

definition THEMES :: "ColorTheme list" where
  "THEMES = [Amber, Rose, Sky, Emerald, Violet, Orange]"

text \<open>
  The state after the first run's \<^verbatim>\<open>initData\<close> on an empty store: the two default
  categories are seeded, the task seed is empty and there are no notes.
\<close>

definition seededState :: AppState where
  "seededState = \<lparr>categories = DEFAULT_CATEGORIES, tasks = INITIAL_TASKS, quickNotes = []\<rparr>"

text \<open>
  The create handlers. Every call of \<^verbatim>\<open>Date.now()\<close> is a parameter of its own:
  \<open>nowId\<close> is the reading rendered into the id, \<open>nowCreated\<close> the one stored as
  \<^verbatim>\<open>createdAt\<close>. \<open>random\<close> is the value of \<^verbatim>\<open>Math.random()\<close>, a number in \<open>[0, 1)\<close>.
\<close>

definition handleAddTask ::
  "int \<Rightarrow> int \<Rightarrow> string \<Rightarrow> string \<Rightarrow> TimeBlock \<Rightarrow> AppState \<Rightarrow> AppState" where
  "handleAddTask nowId nowCreated ttl catId block st =
     (let newTask = \<lparr>task_id = show_int nowId, title = ttl, categoryId = catId,
                      timeBlock = block, status = Active, completedAt = None,
                      createdAt = Some nowCreated\<rparr>
      in st\<lparr>tasks := tasks st @ [newTask]\<rparr>)"

definition handleAddCategory ::
  "int \<Rightarrow> string \<Rightarrow> ColorTheme \<Rightarrow> string \<Rightarrow> AppState \<Rightarrow> AppState" where
  "handleAddCategory nowId lbl thm icn st =
     (let newCat = \<lparr>cat_id = show_int nowId, cat_label = lbl, cat_icon = icn, cat_theme = thm\<rparr>
      in st\<lparr>categories := categories st @ [newCat]\<rparr>)"

definition handleDeleteCategory :: "string \<Rightarrow> AppState \<Rightarrow> AppState" where
  "handleDeleteCategory ident st =
     st\<lparr>categories := filter (\<lambda>c. cat_id c \<noteq> ident) (categories st)\<rparr>"

definition handleAddNote :: "int \<Rightarrow> int \<Rightarrow> rat \<Rightarrow> string \<Rightarrow> AppState \<Rightarrow> AppState" where
  "handleAddNote nowId nowCreated random cont st =
     (let newNote = \<lparr>note_id = show_int nowId, note_content = cont,
                      note_createdAt = nowCreated,
                      note_theme = THEMES ! nat \<lfloor>random * of_nat (length THEMES)\<rfloor>\<rparr>
      in st\<lparr>quickNotes := newNote # quickNotes st\<rparr>)"

definition handleDeleteNote :: "string \<Rightarrow> AppState \<Rightarrow> AppState" where
  "handleDeleteNote ident st =
     st\<lparr>quickNotes := filter (\<lambda>n. note_id n \<noteq> ident) (quickNotes st)\<rparr>"

text \<open>
  \<^verbatim>\<open>notes.sort((a, b) => b.createdAt - a.createdAt)\<close>. The engine's sort is stable, and a
  stable sort by a key has one result; \<open>sort_key\<close> is a stable insertion sort, here on the
  negated key so that the newest note comes first.
\<close>

definition sortNotes :: "Note list \<Rightarrow> Note list" where
  "sortNotes ns = sort_key (\<lambda>n. - note_createdAt n) ns"

text \<open>
  The last step of \<^verbatim>\<open>initData\<close> (lines 130--132): the notes read from the store are
  sorted and set. \<open>None\<close> stands for a run whose \<^verbatim>\<open>try\<close> block was left earlier by a failed
  store call; the list then keeps its initial value, the empty list.
\<close>

definition initData_quickNotes :: "Note list option \<Rightarrow> Note list" where
  "initData_quickNotes dbNotes = (case dbNotes of None \<Rightarrow> [] | Some ns \<Rightarrow> sortNotes ns)"

text \<open>
  \<^verbatim>\<open>handleImportData\<close>. \<open>stored\<close> tells whether every store call of the \<^verbatim>\<open>try\<close> block
  succeeded; when one fails the \<^verbatim>\<open>catch\<close> branch leaves the three lists as they were.
  \<open>now\<close> is the clock, indexed by the position of the task that reads it.
\<close>

definition handleImportData ::
  "bool \<Rightarrow> (nat \<Rightarrow> int) \<Rightarrow> Category list \<Rightarrow> Task list \<Rightarrow> Note list \<Rightarrow> AppState \<Rightarrow> AppState" where
  "handleImportData stored now newCategories newTasks newNotes st =
     (if stored then
        (let tasksWithTimestamp =
               map (\<lambda>(i, task). task\<lparr>createdAt :=
                       (if truthy (createdAt task) then createdAt task else Some (now i))\<rparr>)
                 (enumerate 0 newTasks)
         in \<lparr>categories = newCategories, tasks = tasksWithTimestamp,
              quickNotes = sortNotes newNotes\<rparr>)
      else st)"

text \<open>
  Sequences of create operations, run from the seeded state, and the clock readings that
  each collection's creates turned into ids.
\<close>

datatype create_op =
    AddTask int int string string TimeBlock
  | AddCategory int string ColorTheme string
  | AddNote int int rat string

fun apply_create :: "AppState \<Rightarrow> create_op \<Rightarrow> AppState" where
  "apply_create st (AddTask nowId nowCreated ttl catId block) =
     handleAddTask nowId nowCreated ttl catId block st"
| "apply_create st (AddCategory nowId lbl thm icn) = handleAddCategory nowId lbl thm icn st"
| "apply_create st (AddNote nowId nowCreated random cont) =
     handleAddNote nowId nowCreated random cont st"

definition run_creates :: "create_op list \<Rightarrow> AppState" where
  "run_creates ops = foldl apply_create seededState ops"

fun taskStamps :: "create_op list \<Rightarrow> int list" where
  "taskStamps [] = []"
| "taskStamps (AddTask nowId nowCreated ttl catId block # ops) = nowId # taskStamps ops"
| "taskStamps (_ # ops) = taskStamps ops"

fun categoryStamps :: "create_op list \<Rightarrow> int list" where
  "categoryStamps [] = []"
| "categoryStamps (AddCategory nowId lbl thm icn # ops) = nowId # categoryStamps ops"
| "categoryStamps (_ # ops) = categoryStamps ops"

fun noteStamps :: "create_op list \<Rightarrow> int list" where
  "noteStamps [] = []"
| "noteStamps (AddNote nowId nowCreated random cont # ops) = nowId # noteStamps ops"
| "noteStamps (_ # ops) = noteStamps ops"

fun stampOf :: "create_op \<Rightarrow> int" where
  "stampOf (AddTask nowId nowCreated ttl catId block) = nowId"
| "stampOf (AddCategory nowId lbl thm icn) = nowId"
| "stampOf (AddNote nowId nowCreated random cont) = nowId"

text \<open>The invariant of the specification: ids are unique within each collection.\<close>

definition uniqueIds :: "AppState \<Rightarrow> bool" where
  "uniqueIds st \<longleftrightarrow>
     distinct (map task_id (tasks st)) \<and>
     distinct (map cat_id (categories st)) \<and>
     distinct (map note_id (quickNotes st))"

text \<open>Newest first: every note is at least as recent as the notes after it.\<close>

definition newestFirst :: "Note list \<Rightarrow> bool" where
  "newestFirst ns = sorted_wrt (\<lambda>a b. note_createdAt b \<le> note_createdAt a) ns"

section \<open>Task card presentation (TaskCard, Column)\<close>

definition THEME_STYLES :: "ColorTheme \<Rightarrow> string" where
  "THEME_STYLES t =
     (case t of
        Sky \<Rightarrow> ''bg-sky-100 text-sky-700 border-sky-200''
      | Violet \<Rightarrow> ''bg-violet-100 text-violet-700 border-violet-200''
      | Orange \<Rightarrow> ''bg-orange-100 text-orange-700 border-orange-200''
      | Rose \<Rightarrow> ''bg-rose-100 text-rose-700 border-rose-200''
      | Emerald \<Rightarrow> ''bg-emerald-100 text-emerald-700 border-emerald-200''
      | Amber \<Rightarrow> ''bg-amber-100 text-amber-700 border-amber-200''
      | Slate \<Rightarrow> ''bg-slate-100 text-slate-600 border-slate-200'')"

text \<open>\<^verbatim>\<open>getCategory\<close> of \<^verbatim>\<open>Column\<close>: the first category with the id, or \<^verbatim>\<open>undefined\<close>.\<close>

definition getCategory :: "Category list \<Rightarrow> string \<Rightarrow> Category option" where
  "getCategory cats catId = find (\<lambda>c. cat_id c = catId) cats"

text \<open>
  What \<^verbatim>\<open>TaskCard\<close> derives from its optional \<^verbatim>\<open>category\<close> prop (lines 62--68): the theme
  classes, the label, the icon and the \<^verbatim>\<open>isSpecial\<close> flag.
\<close>

record Presentation =
  themeClass :: string
  categoryLabel :: string
  categoryIcon :: string
  isSpecial :: bool

definition taskCardPresentation :: "Category option \<Rightarrow> Presentation" where
  "taskCardPresentation category =
     \<lparr>themeClass = (case category of Some c \<Rightarrow> THEME_STYLES (cat_theme c)
                                     | None \<Rightarrow> THEME_STYLES Slate),
      categoryLabel = (case category of Some c \<Rightarrow> cat_label c
                         | None \<Rightarrow> [CHR 0xE7, CHR 0x89, CHR 0xB9, CHR 0xE6, CHR 0xAE, CHR 0x8A,
                                    CHR 0xE8, CHR 0xAE, CHR 0xA2, CHR 0xE5, CHR 0x8D, CHR 0x95]),
      categoryIcon = (case category of Some c \<Rightarrow> cat_icon c
                        | None \<Rightarrow> [CHR 0xE2, CHR 0x9C, CHR 0xA8]),
      isSpecial = (category = None)\<rparr>"

text \<open>The card \<^verbatim>\<open>Column\<close> renders for a task: \<^verbatim>\<open>category={getCategory(task.categoryId)}\<close>.\<close>

definition renderedPresentation :: "Category list \<Rightarrow> Task \<Rightarrow> Presentation" where
  "renderedPresentation cats task = taskCardPresentation (getCategory cats (categoryId task))"

text \<open>
  The fallback presentation of the specification: slate theme, the fallback label
  (``special order'') and the fallback icon.
\<close>

definition specialOrder :: Presentation where
  "specialOrder =
     \<lparr>themeClass = ''bg-slate-100 text-slate-600 border-slate-200'',
      categoryLabel = [CHR 0xE7, CHR 0x89, CHR 0xB9, CHR 0xE6, CHR 0xAE, CHR 0x8A,
                       CHR 0xE8, CHR 0xAE, CHR 0xA2, CHR 0xE5, CHR 0x8D, CHR 0x95],
      categoryIcon = [CHR 0xE2, CHR 0x9C, CHR 0xA8],
      isSpecial = True\<rparr>"

section \<open>Visibility: theorems\<close>

lemma getBeijingTodayStart_utc8_host:
  "getBeijingTodayStart now (- 480) = utc8DayStart now"
  by (simp add: getBeijingTodayStart_def setHours0_def utc8DayStart_def Let_def add.commute)

text \<open>
  On a host whose own zone is UTC+8 the predicate is the specification's rule, for every
  task whose completion stamp is not the falsy number \<open>0\<close>.
\<close>

lemma shouldHideTask_utc8_host:
  "completedAt task \<noteq> Some 0 \<Longrightarrow>
   shouldHideTask now (- 480) task =
     (status task = Completed \<and> (\<exists>c. completedAt task = Some c \<and> c < utc8DayStart now))"
  by (cases "completedAt task")
     (auto simp: shouldHideTask_def truthy_def getBeijingTodayStart_utc8_host)

text \<open>
  Claim C8. A task whose status is completed and whose \<open>completedAt\<close> is unset is not
  hidden, whatever the time and the host's zone: it stays in the lane query of its
  time block.
\<close>

theorem completed_without_stamp_not_hidden:
  "status task = Completed \<Longrightarrow> completedAt task = None \<Longrightarrow>
   \<not> shouldHideTask now off task \<and>
   (task \<in> set ts \<longrightarrow> task \<in> set (getTasksByBlock now off ts (timeBlock task)))"
  by (simp add: shouldHideTask_def truthy_def getTasksByBlock_def)

theorem completed_without_stamp_not_hidden_witness:
  "\<not> shouldHideTask 1699963200000 0
      \<lparr>task_id = ''1'', title = ''a'', categoryId = ''cat1'', timeBlock = Morning,
       status = Completed, completedAt = None, createdAt = Some 5\<rparr> \<and>
   \<lparr>task_id = ''1'', title = ''a'', categoryId = ''cat1'', timeBlock = Morning,
       status = Completed, completedAt = None, createdAt = Some 5\<rparr>
     \<in> set (getTasksByBlock 1699963200000 0
        [\<lparr>task_id = ''1'', title = ''a'', categoryId = ''cat1'', timeBlock = Morning,
       status = Completed, completedAt = None, createdAt = Some 5\<rparr>] Morning)"
  using completed_without_stamp_not_hidden
    [where task = "\<lparr>task_id = ''1'', title = ''a'', categoryId = ''cat1'', timeBlock = Morning,
       status = Completed, completedAt = None, createdAt = Some 5\<rparr>"
      and ts = "[\<lparr>task_id = ''1'', title = ''a'', categoryId = ''cat1'', timeBlock = Morning,
       status = Completed, completedAt = None, createdAt = Some 5\<rparr>]"
      and now = 1699963200000 and off = 0]
  by simp

text \<open>
  Claim C1, evaluated where the code leaves it. The host's zone is UTC
  (\<^verbatim>\<open>getTimezoneOffset() = 0\<close>) and the clock reads 2023-11-14 12:00 UTC, which is 20:00 of
  14 November at UTC+8; that reference day began at 1699891200000 (13 November 16:00 UTC).
  A task completed at 1699905600000 (13 November 20:00 UTC, 04:00 of the same reference
  day) is at or after that start, yet \<open>shouldHideTask\<close> hides it and the lane query of its
  time block leaves it out, because \<open>getBeijingTodayStart\<close> returns 1699920000000 there.
\<close>

theorem shouldHideTask_utc_host_hides_same_day_completion:
  "utc8DayStart 1699963200000 = 1699891200000 \<and>
   getBeijingTodayStart 1699963200000 0 = 1699920000000 \<and>
   shouldHideTask 1699963200000 0
     \<lparr>task_id = ''1'', title = ''a'', categoryId = ''cat1'', timeBlock = Morning,
      status = Completed, completedAt = Some 1699905600000, createdAt = Some 5\<rparr> \<and>
   getTasksByBlock 1699963200000 0
     [\<lparr>task_id = ''1'', title = ''a'', categoryId = ''cat1'', timeBlock = Morning,
       status = Completed, completedAt = Some 1699905600000, createdAt = Some 5\<rparr>] Morning = []"
  by (simp add: utc8DayStart_def getBeijingTodayStart_def setHours0_def msPerDay_def
      shouldHideTask_def truthy_def getTasksByBlock_def Let_def)

section \<open>Progress: theorems\<close>

declare log2floor.simps [simp del]

lemma log2floor_le: "0 < n \<Longrightarrow> 2 ^ log2floor n \<le> n"
proof (induction n rule: log2floor.induct)
  case (1 n)
  show ?case
  proof (cases "n < 2")
    case True
    with "1.prems" show ?thesis by (simp add: log2floor.simps [of n])
  next
    case False
    then have "0 < n div 2" by simp
    with "1.IH" False have "2 ^ log2floor (n div 2) \<le> n div 2" by simp
    then have "2 * 2 ^ log2floor (n div 2) \<le> 2 * (n div 2)" by simp
    also have "\<dots> \<le> n" by simp
    finally show ?thesis using False by (simp add: log2floor.simps [of n])
  qed
qed

lemma binade_less:
  assumes "0 < q" and "q < 2 ^ N" and "0 < N"
  shows "binade q < int N"
proof (cases "1 \<le> q")
  case True
  then have p: "0 < nat \<lfloor>q\<rfloor>" by simp
  have "(2::rat) ^ log2floor (nat \<lfloor>q\<rfloor>) = of_nat (2 ^ log2floor (nat \<lfloor>q\<rfloor>))" by simp
  also have "\<dots> \<le> of_nat (nat \<lfloor>q\<rfloor>)" using log2floor_le [OF p] by (simp only: of_nat_le_iff)
  also have "\<dots> = of_int \<lfloor>q\<rfloor>" using True by simp
  also have "\<dots> \<le> q" by simp
  also have "\<dots> < 2 ^ N" by (rule assms(2))
  finally have "log2floor (nat \<lfloor>q\<rfloor>) < N" by simp
  with True show ?thesis by (simp add: binade_def)
next
  case False
  with assms(3) show ?thesis by (simp add: binade_def)
qed

lemma roundTiesToEven_le: "y \<le> of_int K \<Longrightarrow> roundTiesToEven y \<le> K"
proof -
  assume y: "y \<le> of_int K"
  have f: "\<lfloor>y\<rfloor> \<le> K" using y by (simp add: floor_le_iff)
  show ?thesis
  proof (cases "y = of_int \<lfloor>y\<rfloor>")
    case True
    then have "y - of_int \<lfloor>y\<rfloor> = 0" by simp
    then show ?thesis using f by (simp add: roundTiesToEven_def Let_def)
  next
    case False
    have "of_int \<lfloor>y\<rfloor> < y"
      by (rule le_neq_trans [OF of_int_floor_le False [symmetric]])
    with y have "of_int \<lfloor>y\<rfloor> < (of_int K :: rat)" by simp
    then have "\<lfloor>y\<rfloor> < K" by simp
    then show ?thesis by (simp add: roundTiesToEven_def Let_def)
  qed
qed

lemma roundTiesToEven_nonneg: "0 \<le> y \<Longrightarrow> 0 \<le> roundTiesToEven y"
  by (simp add: roundTiesToEven_def Let_def)

lemma binary64_between:
  assumes "0 \<le> q" and "q \<le> of_int K" and "K < 2 ^ 53"
  shows "\<exists>r. binary64 q = Num r \<and> 0 \<le> r \<and> r \<le> of_int K"
proof (cases "q = 0")
  case True
  with assms show ?thesis by (simp add: binary64_def)
next
  case False
  with assms(1) have pos: "0 < q" by simp
  have K53: "(of_int K :: rat) < 2 ^ 53"
  proof -
    have "(of_int K :: rat) < of_int (2 ^ 53)" using assms(3) by (simp only: of_int_less_iff)
    then show ?thesis by simp
  qed
  with assms(2) have "q < 2 ^ 53" by simp
  from binade_less [OF pos this] have b: "binade q < 53" by simp
  define e where "e = max (binade q) (- 1022)"
  define n where "n = nat (52 - e)"
  have e: "e - 52 = - int n" using b by (simp add: e_def n_def)
  define ulp :: rat where "ulp = 2 powi (e - 52)"
  have ulp: "ulp = inverse (2 ^ n)"
    unfolding ulp_def e by (simp add: power_int_minus)
  have up: "0 < ulp" by (simp add: ulp)
  define m where "m = roundTiesToEven (q / ulp)"
  have "q / ulp = q * 2 ^ n" by (simp add: ulp divide_inverse)
  also have "\<dots> \<le> of_int K * 2 ^ n" using assms(2) by simp
  also have "\<dots> = of_int (K * 2 ^ n)" by simp
  finally have "m \<le> K * 2 ^ n" unfolding m_def by (rule roundTiesToEven_le)
  then have "(of_int m :: rat) \<le> of_int (K * 2 ^ n)" by (simp only: of_int_le_iff)
  then have "of_int m * ulp \<le> of_int (K * 2 ^ n) * ulp"
    using up by (simp only: mult_le_cancel_right_pos)
  also have "\<dots> = of_int K" by (simp add: ulp)
  finally have hi: "of_int m * ulp \<le> of_int K" .
  have "0 \<le> q / ulp" using pos up by simp
  then have "0 \<le> m" unfolding m_def by (rule roundTiesToEven_nonneg)
  then have lo: "0 \<le> of_int m * ulp" using up by simp
  have "of_int m * ulp < (2::rat) ^ 53" using hi K53 by simp
  also have "(2::rat) ^ 53 \<le> 2 ^ 1024" by (rule power_increasing) simp_all
  finally have no: "\<not> (2::rat) powi 1024 \<le> of_int m * ulp" by simp
  have "binary64 q = Num (of_int m * ulp)"
    using pos no
    by (simp add: binary64_def Let_def e_def [symmetric] ulp_def [symmetric] m_def [symmetric])
  with lo hi show ?thesis by blast
qed


lemma binary64_eval:
  assumes "0 < q" and "max (binade q) (- 1022) = e"
    and "roundTiesToEven (q / 2 powi (e - 52)) = m"
    and "of_int m * 2 powi (e - 52) < (2::rat) ^ 53"
  shows "binary64 q = Num (of_int m * 2 powi (e - 52))"
proof -
  have "(2::rat) ^ 53 \<le> 2 ^ 1024" by (rule power_increasing) simp_all
  with assms(4) have "\<not> (2::rat) powi 1024 \<le> of_int m * 2 powi (e - 52)" by simp
  then show ?thesis using assms(1-3) by (simp add: binary64_def Let_def)
qed

lemma floor_rat_numeral: "\<lfloor>(numeral a / numeral b :: rat)\<rfloor> = numeral a div numeral b"
  using floor_divide_of_int_eq [of "numeral a" "numeral b", where ?'a = rat] by simp

lemma ceiling_rat_numeral: "\<lceil>(numeral a / numeral b :: rat)\<rceil> = - (- numeral a div numeral b)"
  using ceiling_divide_eq_div [of "numeral a" "numeral b", where ?'a = rat] by simp

lemma binade_third: "binade (1 / 3) = - 2"
  by (simp add: binade_def log2ceil_def log2floor.simps)

lemma rte_third: "roundTiesToEven (1 / 3 / 2 powi (- 2 - 52)) = 6004799503160661"
  by (simp add: roundTiesToEven_def Let_def power_int_minus floor_rat_numeral)

lemma b64_third: "binary64 (1 / 3) = Num (6004799503160661 / 18014398509481984)"
proof -
  have "binary64 (1 / 3) = Num (of_int 6004799503160661 * 2 powi (- 2 - 52))"
    by (rule binary64_eval [OF _ _ rte_third]) (simp_all add: binade_third power_int_minus)
  then show ?thesis by (simp add: power_int_minus)
qed


lemma rte_third_times:
  "roundTiesToEven (150119987579016525 / 4503599627370496 / 2 powi (5 - 52))
    = 4691249611844266"
  by (simp add: roundTiesToEven_def Let_def power_int_minus floor_rat_numeral)

lemma binade_third_times: "binade (150119987579016525 / 4503599627370496) = 5"
  by (simp add: binade_def log2floor.simps floor_rat_numeral)

lemma b64_third_times:
  "binary64 (150119987579016525 / 4503599627370496)
   = Num (2345624805922133 / 70368744177664)"
proof -
  have "binary64 (150119987579016525 / 4503599627370496)
      = Num (of_int 4691249611844266 * 2 powi (5 - 52))"
    by (rule binary64_eval [OF _ _ rte_third_times])
       (simp_all add: binade_third_times power_int_minus)
  then show ?thesis by (simp add: power_int_minus)
qed

lemma b64_half: "binary64 (1 / 2) = Num (1 / 2)"
proof -
  have "binary64 (1 / 2) = Num (of_int 4503599627370496 * 2 powi (- 1 - 52))"
    by (rule binary64_eval)
       (simp_all add: binade_def log2ceil_def log2floor.simps roundTiesToEven_def Let_def
         power_int_minus)
  then show ?thesis by (simp add: power_int_minus)
qed

lemma b64_fifty: "binary64 50 = Num 50"
proof -
  have "binary64 50 = Num (of_int 7036874417766400 * 2 powi (5 - 52))"
    by (rule binary64_eval)
       (simp_all add: binade_def log2floor.simps roundTiesToEven_def Let_def
         power_int_minus)
  then show ?thesis by (simp add: power_int_minus)
qed

text \<open>
  One completed task of three visible ones: the quotient is the binary64 value next to
  one third, and its product with 100 rounds to the value that prints as
  \<^verbatim>\<open>33.33333333333333\<close>, which is not the rational \<open>100/3\<close>.
\<close>

lemma progress_one_of_three:
  "js_times (js_div 1 3) 100 = Num (2345624805922133 / 70368744177664)"
  by (simp add: js_div_def b64_third b64_third_times)

text \<open>
  Claim C9. \<open>calculateProgress\<close> always returns a finite number between 0 and 100: it is 0
  when no task is visible, the division being skipped there, and otherwise it is the
  number of completed visible tasks divided by the number of visible tasks, times 100,
  each of the two operations rounded to binary64. It never returns \<open>NaN\<close> or an infinity,
  the results of a division by zero.
\<close>

theorem calculateProgress_total_in_range:
  "\<exists>q. calculateProgress now off ts = Num q \<and> 0 \<le> q \<and> q \<le> 100 \<and>
     (filter (\<lambda>t. \<not> shouldHideTask now off t) ts = [] \<longrightarrow> q = 0) \<and>
     (filter (\<lambda>t. \<not> shouldHideTask now off t) ts \<noteq> [] \<longrightarrow>
        (\<exists>r. binary64
               (of_nat (length (filter (\<lambda>t. status t = Completed)
                                  (filter (\<lambda>t. \<not> shouldHideTask now off t) ts)))
                / of_nat (length (filter (\<lambda>t. \<not> shouldHideTask now off t) ts))) = Num r \<and>
             0 \<le> r \<and> r \<le> 1 \<and> binary64 (r * 100) = Num q))"
proof (cases "filter (\<lambda>t. \<not> shouldHideTask now off t) ts = []")
  case True
  then show ?thesis by (simp add: calculateProgress_def)
next
  case False
  define vis where "vis = filter (\<lambda>t. \<not> shouldHideTask now off t) ts"
  define c where "c = length (filter (\<lambda>t. status t = Completed) vis)"
  have n0: "length vis \<noteq> 0" using False by (simp add: vis_def)
  have le: "c \<le> length vis" by (simp add: c_def)
  have "(of_nat c :: rat) / of_nat (length vis) \<le> 1"
    using le n0 by (simp add: divide_le_eq_1)
  then have "(of_nat c :: rat) / of_nat (length vis) \<le> of_int 1" by simp
  from binary64_between [OF _ this]
  obtain r where r: "binary64 (of_nat c / of_nat (length vis)) = Num r"
    and r0: "0 \<le> r" and r1: "r \<le> 1" by auto
  from r1 have "r * 100 \<le> 1 * 100" by (rule mult_right_mono) simp
  then have "r * 100 \<le> of_int 100" by simp
  moreover have "0 \<le> r * 100" using r0 by simp
  ultimately obtain q where q: "binary64 (r * 100) = Num q" and q0: "0 \<le> q" and q1: "q \<le> 100"
    using binary64_between [of "r * 100" 100] by auto
  have res: "calculateProgress now off ts = Num q"
    using n0 r q
    by (simp add: calculateProgress_def Let_def js_div_def vis_def [symmetric] c_def [symmetric])
  show ?thesis
    using res q0 q1 False r r0 r1 q unfolding vis_def [symmetric] c_def [symmetric] by blast
qed

theorem calculateProgress_total_in_range_witness:
  "calculateProgress 1699963200000 (- 480)
     [\<lparr>task_id = ''1'', title = ''a'', categoryId = ''cat1'', timeBlock = Morning,
       status = Completed, completedAt = Some 1699905600000, createdAt = Some 5\<rparr>,
      \<lparr>task_id = ''2'', title = ''b'', categoryId = ''cat1'', timeBlock = Evening,
       status = Active, completedAt = None, createdAt = Some 6\<rparr>] = Num 50 \<and>
   calculateProgress 1699963200000 (- 480) [] = Num 0 \<and>
   calculateProgress 1699963200000 (- 480)
     [\<lparr>task_id = ''1'', title = ''a'', categoryId = ''cat1'', timeBlock = Morning,
       status = Completed, completedAt = Some 1699905600000, createdAt = Some 5\<rparr>,
      \<lparr>task_id = ''2'', title = ''b'', categoryId = ''cat1'', timeBlock = Evening,
       status = Active, completedAt = None, createdAt = Some 6\<rparr>,
      \<lparr>task_id = ''3'', title = ''c'', categoryId = ''cat2'', timeBlock = Evening,
       status = Active, completedAt = None, createdAt = Some 7\<rparr>] = Num (2345624805922133 / 70368744177664)"
proof -
  let ?ts = "[\<lparr>task_id = ''1'', title = ''a'', categoryId = ''cat1'', timeBlock = Morning,
       status = Completed, completedAt = Some 1699905600000, createdAt = Some 5\<rparr>,
      \<lparr>task_id = ''2'', title = ''b'', categoryId = ''cat1'', timeBlock = Evening,
       status = Active, completedAt = None, createdAt = Some 6\<rparr>]"
  let ?ts3 = "[\<lparr>task_id = ''1'', title = ''a'', categoryId = ''cat1'', timeBlock = Morning,
       status = Completed, completedAt = Some 1699905600000, createdAt = Some 5\<rparr>,
      \<lparr>task_id = ''2'', title = ''b'', categoryId = ''cat1'', timeBlock = Evening,
       status = Active, completedAt = None, createdAt = Some 6\<rparr>,
      \<lparr>task_id = ''3'', title = ''c'', categoryId = ''cat2'', timeBlock = Evening,
       status = Active, completedAt = None, createdAt = Some 7\<rparr>]"
  have vis: "filter (\<lambda>t. \<not> shouldHideTask 1699963200000 (- 480) t) ?ts = ?ts"
    by (simp add: shouldHideTask_def truthy_def getBeijingTodayStart_def setHours0_def
        msPerDay_def Let_def)
  have vis3: "filter (\<lambda>t. \<not> shouldHideTask 1699963200000 (- 480) t) ?ts3 = ?ts3"
    by (simp add: shouldHideTask_def truthy_def getBeijingTodayStart_def setHours0_def
        msPerDay_def Let_def)
  from calculateProgress_total_in_range [of 1699963200000 "- 480" ?ts]
  obtain q r where q: "calculateProgress 1699963200000 (- 480) ?ts = Num q"
    and r: "binary64 (of_nat (length (filter (\<lambda>t. status t = Completed)
                 (filter (\<lambda>t. \<not> shouldHideTask 1699963200000 (- 480) t) ?ts)))
            / of_nat (length (filter (\<lambda>t. \<not> shouldHideTask 1699963200000 (- 480) t) ?ts)))
          = Num r"
    and qr: "binary64 (r * 100) = Num q"
    unfolding vis by auto
  from r have "r = 1 / 2" unfolding vis by (simp add: b64_half)
  with qr have "q = 50" by (simp add: b64_fifty)
  with q have a: "calculateProgress 1699963200000 (- 480) ?ts = Num 50" by simp
  from calculateProgress_total_in_range [of 1699963200000 "- 480" "[]"]
  have b: "calculateProgress 1699963200000 (- 480) [] = Num 0" by auto
  from calculateProgress_total_in_range [of 1699963200000 "- 480" ?ts3]
  obtain q3 r3 where q3: "calculateProgress 1699963200000 (- 480) ?ts3 = Num q3"
    and r3: "binary64 (of_nat (length (filter (\<lambda>t. status t = Completed)
                 (filter (\<lambda>t. \<not> shouldHideTask 1699963200000 (- 480) t) ?ts3)))
            / of_nat (length (filter (\<lambda>t. \<not> shouldHideTask 1699963200000 (- 480) t) ?ts3)))
          = Num r3"
    and qr3: "binary64 (r3 * 100) = Num q3"
    unfolding vis3 by auto
  from r3 have "r3 = 6004799503160661 / 18014398509481984" unfolding vis3 by (simp add: b64_third)
  with qr3 have "q3 = 2345624805922133 / 70368744177664" by (simp add: b64_third_times)
  with q3 have c: "calculateProgress 1699963200000 (- 480) ?ts3
      = Num (2345624805922133 / 70368744177664)" by simp
  from a b c show ?thesis by (intro conjI)
qed

section \<open>Status toggle: theorems\<close>

lemma toggle_twice_from:
  "map (\<lambda>(i, t).
          if task_id t = ident then
            (let newStatus = (if status t = Active then Completed else Active)
             in t\<lparr>status := newStatus,
                  completedAt := (if newStatus = Completed then Some (n2 i) else None)\<rparr>)
          else t)
     (enumerate k
        (map (\<lambda>(i, t).
          if task_id t = ident then
            (let newStatus = (if status t = Active then Completed else Active)
             in t\<lparr>status := newStatus,
                  completedAt := (if newStatus = Completed then Some (n1 i) else None)\<rparr>)
          else t) (enumerate k ts))) =
   map (\<lambda>(i, t).
          if task_id t = ident
          then t\<lparr>completedAt := (if status t = Active then None else Some (n2 i))\<rparr>
          else t)
     (enumerate k ts)"
proof (induction ts arbitrary: k)
  case Nil
  show ?case by simp
next
  case (Cons t ts)
  have "status t = Active \<or> status t = Completed" by (cases "status t") simp_all
  then show ?case using Cons.IH [of "Suc k"] by (auto simp: Let_def)
qed

text \<open>
  Claim C2, as the code has it. Two toggles of the same id, with clocks \<open>n1\<close> and \<open>n2\<close>,
  return every task to its original status and leave every field but \<open>completedAt\<close> as it
  was. \<open>completedAt\<close> is unset afterwards for a task that was active; for a task that was
  completed it is the reading of the second toggle's clock.
\<close>

theorem handleToggleStatus_twice:
  "handleToggleStatus n2 ident (handleToggleStatus n1 ident ts) =
   map (\<lambda>(i, t).
          if task_id t = ident
          then t\<lparr>completedAt := (if status t = Active then None else Some (n2 i))\<rparr>
          else t)
     (enumerate 0 ts)"
  unfolding handleToggleStatus_def by (rule toggle_twice_from)

text \<open>
  Claim C2 as stated fails for a task that starts completed: after two toggles its
  status is completed again and \<open>completedAt\<close> holds the second clock reading.
\<close>

theorem handleToggleStatus_twice_counterexample:
  "map (\<lambda>t. (status t, completedAt t))
     (handleToggleStatus (\<lambda>i. 2000) ''1'' (handleToggleStatus (\<lambda>i. 1500) ''1''
        [\<lparr>task_id = ''1'', title = ''a'', categoryId = ''cat1'', timeBlock = Morning,
          status = Completed, completedAt = Some 1000, createdAt = Some 5\<rparr>]))
   = [(Completed, Some 2000)]"
  by (simp add: handleToggleStatus_def enumerate_eq_zip Let_def)

section \<open>Numbers as strings: theorems\<close>

declare show_nat.simps [simp del]

lemma digit_char_inj: "a < 10 \<Longrightarrow> b < 10 \<Longrightarrow> digit_char a = digit_char b \<Longrightarrow> a = b"
proof -
  assume a: "a < 10" and b: "b < 10" and e: "digit_char a = digit_char b"
  have d: "distinct ''0123456789''" by simp
  have l: "length ''0123456789'' = 10" by simp
  from e have "''0123456789'' ! a = ''0123456789'' ! b" by (simp only: digit_char_def)
  with nth_eq_iff_index_eq [OF d, of a b] a b l show "a = b" by simp
qed

lemma digit_char_set: "d < 10 \<Longrightarrow> digit_char d \<in> set ''0123456789''"
  unfolding digit_char_def by (rule nth_mem) simp

lemma show_nat_digits: "set (show_nat n) \<subseteq> set ''0123456789''"
proof (induction n rule: show_nat.induct)
  case (1 n)
  show ?case
  proof (cases "n < 10")
    case True
    then show ?thesis using digit_char_set [of n] by (subst show_nat.simps) simp
  next
    case False
    have "n mod 10 < 10" by simp
    then have "digit_char (n mod 10) \<in> set ''0123456789''" by (rule digit_char_set)
    with False "1.IH" show ?thesis by (subst show_nat.simps) simp
  qed
qed

lemma show_nat_nonempty: "show_nat n \<noteq> []"
  by (subst show_nat.simps) simp

lemma show_nat_small: "n < 10 \<Longrightarrow> show_nat n = [digit_char n]"
  by (subst show_nat.simps) simp

lemma show_nat_large:
  "\<not> n < 10 \<Longrightarrow> show_nat n = show_nat (n div 10) @ [digit_char (n mod 10)]"
  by (subst show_nat.simps) simp

lemma show_nat_inj: "show_nat m = show_nat n \<Longrightarrow> m = n"
proof (induction m arbitrary: n rule: show_nat.induct)
  case (1 m)
  show ?case
  proof (cases "m < 10")
    case mT: True
    show ?thesis
    proof (cases "n < 10")
      case True
      from "1.prems" have "digit_char m = digit_char n"
        by (simp add: show_nat_small [OF mT] show_nat_small [OF True])
      with mT True show ?thesis by (rule digit_char_inj)
    next
      case False
      from "1.prems" have "[digit_char m] = show_nat (n div 10) @ [digit_char (n mod 10)]"
        by (simp add: show_nat_small [OF mT] show_nat_large [OF False])
      then have "show_nat (n div 10) = []" by simp
      with show_nat_nonempty show ?thesis by blast
    qed
  next
    case mF: False
    show ?thesis
    proof (cases "n < 10")
      case True
      from "1.prems" have "show_nat (m div 10) @ [digit_char (m mod 10)] = [digit_char n]"
        by (simp add: show_nat_small [OF True] show_nat_large [OF mF])
      then have "show_nat (m div 10) = []" by simp
      with show_nat_nonempty show ?thesis by blast
    next
      case False
      from "1.prems" have "show_nat (m div 10) @ [digit_char (m mod 10)]
           = show_nat (n div 10) @ [digit_char (n mod 10)]"
        by (simp add: show_nat_large [OF mF] show_nat_large [OF False])
      then have e: "show_nat (m div 10) = show_nat (n div 10)"
        and d: "digit_char (m mod 10) = digit_char (n mod 10)"
        by simp_all
      from "1.IH" [OF mF e] have q: "m div 10 = n div 10" .
      have r: "m mod 10 = n mod 10" using _ _ d by (rule digit_char_inj) simp_all
      have "m = 10 * (m div 10) + m mod 10" by simp
      also have "\<dots> = 10 * (n div 10) + n mod 10" by (simp only: q r)
      also have "\<dots> = n" by simp
      finally show ?thesis .
    qed
  qed
qed

lemma show_nat_hd: "hd (show_nat n) \<in> set ''0123456789''"
  by (rule subsetD [OF show_nat_digits hd_in_set [OF show_nat_nonempty]])

lemma show_nat_no_minus: "show_nat n \<noteq> CHR ''-'' # rest"
proof
  assume "show_nat n = CHR ''-'' # rest"
  then have "hd (show_nat n) = CHR ''-''" by simp
  with show_nat_hd [of n] show False by simp
qed

lemma show_int_inj: "show_int a = show_int b \<Longrightarrow> a = b"
proof -
  assume e: "show_int a = show_int b"
  show "a = b"
  proof (cases "a < 0"; cases "b < 0")
    assume "a < 0" "b < 0"
    with e have "nat (- a) = nat (- b)" by (simp add: show_int_def show_nat_inj)
    with \<open>a < 0\<close> \<open>b < 0\<close> show ?thesis by simp
  next
    assume "a < 0" "\<not> b < 0"
    with e show_nat_no_minus [of "nat b" "show_nat (nat (- a))"] show ?thesis
      by (simp add: show_int_def)
  next
    assume "\<not> a < 0" "b < 0"
    with e show_nat_no_minus [of "nat a" "show_nat (nat (- b))"] show ?thesis
      by (simp add: show_int_def)
  next
    assume "\<not> a < 0" "\<not> b < 0"
    with e have "nat a = nat b" by (simp add: show_int_def show_nat_inj)
    with \<open>\<not> a < 0\<close> \<open>\<not> b < 0\<close> show ?thesis by simp
  qed
qed

lemma show_int_not_cat: "show_int a \<noteq> CHR ''c'' # rest"
proof
  assume e: "show_int a = CHR ''c'' # rest"
  then have h: "hd (show_int a) = CHR ''c''" by simp
  show False
  proof (cases "a < 0")
    case True
    with h show False by (simp add: show_int_def)
  next
    case False
    with h show_nat_hd [of "nat a"] show False by (simp add: show_int_def)
  qed
qed

section \<open>Drag and drop: theorems\<close>

lemma findIndex_range: "findIndex P xs = - 1 \<or> (0 \<le> findIndex P xs \<and> findIndex P xs < int (length xs))"
  by (induction xs) (auto simp: Let_def)

lemma arrayMove_Some:
  assumes "array \<noteq> []" and "- 1 \<le> from" and "from < int (length array)"
  shows "\<exists>r. arrayMove array from to = Some r \<and> mset r = mset array"
proof -
  define k where "k = spliceStart from (length array)"
  obtain m where len: "length array = Suc m"
    using assms(1) by (cases array) auto
  have k: "k < length array"
  proof (cases "from < 0")
    case True
    with assms(2) have "from = - 1" by simp
    then show ?thesis by (simp add: k_def spliceStart_def len)
  next
    case False
    with assms(3) show ?thesis by (simp add: k_def spliceStart_def len)
  qed
  define rest where "rest = take k array @ drop (Suc k) array"
  have "array = take k array @ array ! k # drop (Suc k) array"
    using k by (rule id_take_nth_drop)
  then have "mset array = mset (take k array @ array ! k # drop (Suc k) array)" by simp
  then have m: "mset array = mset rest + {#array ! k#}"
    by (simp add: rest_def)
  define j where "j = spliceStart (if to < 0 then int (length array) + to else to) (length rest)"
  have "mset (take j rest) + mset (drop j rest) = mset rest"
    by (simp only: mset_append [symmetric] append_take_drop_id)
  then have r: "mset (take j rest @ [array ! k] @ drop j rest) = mset array"
    using m by simp
  have "arrayMove array from to = Some (take j rest @ [array ! k] @ drop j rest)"
    using k by (simp add: arrayMove_def Let_def k_def [symmetric] rest_def [symmetric] j_def)
  with r show ?thesis by blast
qed


lemma timeBlockName_cases:
  "s \<in> set [''morning'', ''afternoon'', ''evening''] \<longleftrightarrow> (\<exists>b. s = timeBlockName b)"
proof
  assume "s \<in> set [''morning'', ''afternoon'', ''evening'']"
  then consider "s = timeBlockName Morning" | "s = timeBlockName Afternoon"
    | "s = timeBlockName Evening"
    by (auto simp: timeBlockName_def)
  then show "\<exists>b. s = timeBlockName b" by cases blast+
next
  assume "\<exists>b. s = timeBlockName b"
  then obtain b where "s = timeBlockName b" ..
  then show "s \<in> set [''morning'', ''afternoon'', ''evening'']"
    by (cases b) (simp_all add: timeBlockName_def)
qed

lemma asTimeBlock_name: "asTimeBlock (timeBlockName b) = b"
  by (cases b) (simp_all add: asTimeBlock_def timeBlockName_def)

lemma timeBlockName_inj: "timeBlockName a = timeBlockName b \<longleftrightarrow> a = b"
  by (cases a; cases b) (simp_all add: timeBlockName_def)

lemma retime_frame:
  "list_all2 (\<lambda>t t'. t' = t\<lparr>timeBlock := timeBlock t'\<rparr> \<and> (task_id t \<noteq> a \<longrightarrow> t' = t)) ts
     (map (\<lambda>t. if task_id t = a then t\<lparr>timeBlock := b\<rparr> else t) ts)"
  by (induction ts) auto

lemma same_frame:
  "list_all2 (\<lambda>t t'. t' = t\<lparr>timeBlock := timeBlock t'\<rparr> \<and> (task_id t \<noteq> a \<longrightarrow> t' = t)) ts ts"
  by (induction ts) auto

lemma find_retime:
  "find (\<lambda>t. task_id t = a) (map (\<lambda>t. if task_id t = a then t\<lparr>timeBlock := b\<rparr> else t) ts)
   = map_option (\<lambda>t. t\<lparr>timeBlock := b\<rparr>) (find (\<lambda>t. task_id t = a) ts)"
  by (induction ts) auto

lemma handleDragOver_frame:
  "list_all2 (\<lambda>t t'. t' = t\<lparr>timeBlock := timeBlock t'\<rparr> \<and> (task_id t \<noteq> active_id ev \<longrightarrow> t' = t))
     ts (handleDragOver ev ts)"
  unfolding handleDragOver_def Let_def
  by (simp add: retime_frame same_frame split: option.split)

lemma handleDragOver_lane:
  assumes "over ev = Some ov" and "find (\<lambda>t. task_id t = active_id ev) ts = Some activeT"
    and "containerId ov \<noteq> Some ''active''" and "over_id ov = timeBlockName b"
  shows "find (\<lambda>t. task_id t = active_id ev) (handleDragOver ev ts)
         = Some (activeT\<lparr>timeBlock := b\<rparr>)"
proof -
  have i: "over_id ov \<in> set [''morning'', ''afternoon'', ''evening'']"
    unfolding timeBlockName_cases using assms(4) by blast
  show ?thesis
  proof (cases "timeBlock activeT = b")
    case True
    then have "activeT\<lparr>timeBlock := b\<rparr> = activeT" by simp
    with True assms i show ?thesis
      by (simp add: handleDragOver_def Let_def del: set_simps)
  next
    case False
    then have "timeBlockName (timeBlock activeT) \<noteq> over_id ov"
      by (simp add: assms(4) timeBlockName_inj)
    with assms i show ?thesis
      by (simp add: handleDragOver_def Let_def find_retime asTimeBlock_name del: set_simps)
  qed
qed

lemma handleDragOver_task:
  assumes "over ev = Some ov" and "find (\<lambda>t. task_id t = active_id ev) ts = Some activeT"
    and "find (\<lambda>t. task_id t = over_id ov) ts = Some overT"
    and "\<not> (containerId ov \<noteq> Some ''active'' \<and>
            over_id ov \<in> set [''morning'', ''afternoon'', ''evening''])"
  shows "find (\<lambda>t. task_id t = active_id ev) (handleDragOver ev ts)
         = Some (activeT\<lparr>timeBlock := timeBlock overT\<rparr>)"
proof (cases "timeBlock activeT = timeBlock overT")
  case True
  then have "activeT\<lparr>timeBlock := timeBlock overT\<rparr> = activeT" by simp
  with True assms show ?thesis
    by (auto simp: handleDragOver_def Let_def simp del: set_simps)
next
  case False
  with assms show ?thesis
    by (auto simp: handleDragOver_def Let_def find_retime simp del: set_simps)
qed


lemma find_SomeD: "find P xs = Some x \<Longrightarrow> x \<in> set xs \<and> P x"
  by (induction xs) (auto split: if_splits)

lemma lane_split:
  "mset (filter (\<lambda>t. timeBlock t \<noteq> B) ts) + mset (filter (\<lambda>t. timeBlock t = B) ts) = mset ts"
  by (induction ts) auto

lemma other_lane_of_rest:
  "b \<noteq> B \<Longrightarrow>
   filter (\<lambda>t. timeBlock t = b) (filter (\<lambda>t. timeBlock t \<noteq> B) ts) = filter (\<lambda>t. timeBlock t = b) ts"
  by (induction ts) auto

lemma same_lane_of_rest:
  "filter (\<lambda>t. timeBlock t = B) (filter (\<lambda>t. timeBlock t \<noteq> B) ts) = []"
  by (induction ts) auto

lemma visible_lane_length:
  "length (getTasksByBlock now off ts B) \<le> length (filter (\<lambda>t. timeBlock t = B) ts)"
  unfolding getTasksByBlock_def by (induction ts) auto

lemma handleDragEnd_move:
  assumes ov: "over ev = Some ov"
    and a: "find (\<lambda>t. task_id t = active_id ev) ts = Some activeT"
    and o: "find (\<lambda>t. task_id t = over_id ov) ts = Some overT"
    and same: "timeBlock activeT = timeBlock overT"
    and ne: "findIndex (\<lambda>t. task_id t = active_id ev) (getTasksByBlock now off ts (timeBlock activeT))
          \<noteq> findIndex (\<lambda>t. task_id t = over_id ov) (getTasksByBlock now off ts (timeBlock activeT))"
  shows "\<exists>r. handleDragEnd now off ev ts = Some r \<and> mset r = mset ts \<and>
           (\<forall>b. b \<noteq> timeBlock activeT \<longrightarrow>
              filter (\<lambda>t. timeBlock t = b) r = filter (\<lambda>t. timeBlock t = b) ts) \<and>
           arrayMove (filter (\<lambda>t. timeBlock t = timeBlock activeT) ts)
             (findIndex (\<lambda>t. task_id t = active_id ev)
                (getTasksByBlock now off ts (timeBlock activeT)))
             (findIndex (\<lambda>t. task_id t = over_id ov)
                (getTasksByBlock now off ts (timeBlock activeT)))
           = Some (filter (\<lambda>t. timeBlock t = timeBlock activeT) r)"
proof -
  define B where "B = timeBlock activeT"
  define cur where "cur = filter (\<lambda>t. timeBlock t = B) ts"
  define oth where "oth = filter (\<lambda>t. timeBlock t \<noteq> B) ts"
  define old where "old = findIndex (\<lambda>t. task_id t = active_id ev) (getTasksByBlock now off ts B)"
  define new where "new = findIndex (\<lambda>t. task_id t = over_id ov) (getTasksByBlock now off ts B)"
  from find_SomeD [OF a] have "activeT \<in> set cur" by (simp add: cur_def B_def)
  then have nonempty: "cur \<noteq> []" by auto
  have lo: "- 1 \<le> old"
    using findIndex_range [of "\<lambda>t. task_id t = active_id ev" "getTasksByBlock now off ts B"]
    by (auto simp: old_def)
  have "old < int (length (getTasksByBlock now off ts B))"
    using findIndex_range [of "\<lambda>t. task_id t = active_id ev" "getTasksByBlock now off ts B"]
    by (auto simp: old_def)
  also have "\<dots> \<le> int (length cur)"
    using visible_lane_length [of now off ts B] by (simp add: cur_def)
  finally have hi: "old < int (length cur)" .
  from arrayMove_Some [OF nonempty lo hi, of new]
  obtain r' where r': "arrayMove cur old new = Some r'" and m: "mset r' = mset cur" by blast
  have setr: "set r' = set cur" using m by (rule mset_eq_setD)
  have inB: "\<forall>t \<in> set r'. timeBlock t = B" unfolding setr by (simp add: cur_def)
  have res: "handleDragEnd now off ev ts = Some (oth @ r')"
    using ov a o same ne r' unfolding cur_def oth_def old_def new_def B_def
    by (simp add: handleDragEnd_def Let_def)
  have ms: "mset (oth @ r') = mset ts"
    using lane_split [of B ts] by (simp add: m cur_def oth_def)
  have others: "\<forall>b. b \<noteq> B \<longrightarrow>
      filter (\<lambda>t. timeBlock t = b) (oth @ r') = filter (\<lambda>t. timeBlock t = b) ts"
  proof (intro allI impI)
    fix b assume b: "b \<noteq> B"
    have "filter (\<lambda>t. timeBlock t = b) r' = []" using inB b by (auto simp: filter_empty_conv)
    then show "filter (\<lambda>t. timeBlock t = b) (oth @ r') = filter (\<lambda>t. timeBlock t = b) ts"
      by (simp add: oth_def other_lane_of_rest [OF b] del: filter_filter)
  qed
  have "filter (\<lambda>t. timeBlock t = B) r' = r'" using inB by (simp add: filter_id_conv)
  then have lane: "filter (\<lambda>t. timeBlock t = B) (oth @ r') = r'"
    by (simp add: oth_def same_lane_of_rest del: filter_filter)
  show ?thesis
    unfolding B_def [symmetric] old_def [symmetric] new_def [symmetric] cur_def [symmetric]
    using res ms others lane r' by simp
qed

lemma handleDragEnd_still:
  assumes "\<not> (\<exists>ov activeT overT. over ev = Some ov \<and>
      find (\<lambda>t. task_id t = active_id ev) ts = Some activeT \<and>
      find (\<lambda>t. task_id t = over_id ov) ts = Some overT \<and>
      timeBlock activeT = timeBlock overT \<and>
      findIndex (\<lambda>t. task_id t = active_id ev) (getTasksByBlock now off ts (timeBlock activeT))
          \<noteq> findIndex (\<lambda>t. task_id t = over_id ov) (getTasksByBlock now off ts (timeBlock activeT)))"
  shows "handleDragEnd now off ev ts = Some ts"
  using assms
  by (auto simp: handleDragEnd_def Let_def split: option.splits)

text \<open>
  A non-negative result of \<open>findIndex\<close> is the first position that satisfies the
  predicate. When no task of a lane is hidden, the visible lane is the whole lane, and the
  two indices of \<open>handleDragEnd\<close> are the positions of the dragged and of the target task
  in the list that is moved.
\<close>

lemma findIndex_hit:
  "0 \<le> findIndex P xs \<Longrightarrow>
   P (xs ! nat (findIndex P xs)) \<and> (\<forall>j < nat (findIndex P xs). \<not> P (xs ! j))"
proof (induction xs)
  case Nil
  then show ?case by simp
next
  case (Cons x xs)
  show ?case
  proof (cases "P x")
    case True
    then show ?thesis by simp
  next
    case False
    with Cons.prems have r: "0 \<le> findIndex P xs"
      by (simp add: Let_def split: if_splits)
    then have fi: "findIndex P (x # xs) = findIndex P xs + 1"
      using False by (simp add: Let_def)
    have n: "nat (findIndex P (x # xs)) = Suc (nat (findIndex P xs))"
      unfolding fi using r by simp
    from Cons.IH [OF r] have h: "P (xs ! nat (findIndex P xs))"
      and l: "\<forall>j < nat (findIndex P xs). \<not> P (xs ! j)" by simp_all
    show ?thesis
    proof (intro conjI allI impI)
      show "P ((x # xs) ! nat (findIndex P (x # xs)))" unfolding n using h by simp
    next
      fix j assume "j < nat (findIndex P (x # xs))"
      then have "j < Suc (nat (findIndex P xs))" unfolding n .
      then show "\<not> P ((x # xs) ! j)" using False l by (cases j) simp_all
    qed
  qed
qed

lemma getTasksByBlock_all_visible:
  "(\<forall>t \<in> set ts. timeBlock t = B \<longrightarrow> \<not> shouldHideTask now off t) \<Longrightarrow>
   getTasksByBlock now off ts B = filter (\<lambda>t. timeBlock t = B) ts"
  unfolding getTasksByBlock_def by (induction ts) auto

text \<open>
  For indices inside the array the move is the plain one: the element at \<open>i\<close> is taken
  out and put back at position \<open>j\<close> of what is left.
\<close>

lemma arrayMove_in_range:
  assumes "i < length xs" and "j < length xs"
  shows "arrayMove xs (int i) (int j) =
         Some (take j (take i xs @ drop (Suc i) xs) @ [xs ! i] @ drop j (take i xs @ drop (Suc i) xs))"
proof -
  have "length (take i xs @ drop (Suc i) xs) = length xs - 1" using assms(1) by simp
  then have "min j (length (take i xs @ drop (Suc i) xs)) = j" using assms by simp
  then show ?thesis
    using assms by (simp add: arrayMove_def spliceStart_def Let_def del: length_append)
qed

text \<open>
  When no task of the lane is hidden, the two indices are read in the list that is moved:
  the drop is the array move of the lane from the position of the dragged task to the
  position of the target, and every other lane is as it was.
\<close>

lemma handleDragEnd_visible_lane:
  assumes "over ev = Some ov"
    and "find (\<lambda>t. task_id t = active_id ev) ts = Some activeT"
    and "find (\<lambda>t. task_id t = over_id ov) ts = Some overT"
    and "timeBlock activeT = timeBlock overT"
    and "\<forall>t \<in> set ts. timeBlock t = timeBlock activeT \<longrightarrow> \<not> shouldHideTask now off t"
    and "findIndex (\<lambda>t. task_id t = active_id ev) (filter (\<lambda>t. timeBlock t = timeBlock activeT) ts)
          \<noteq> findIndex (\<lambda>t. task_id t = over_id ov) (filter (\<lambda>t. timeBlock t = timeBlock activeT) ts)"
  shows "\<exists>r. handleDragEnd now off ev ts = Some r \<and> mset r = mset ts \<and>
           (\<forall>b. b \<noteq> timeBlock activeT \<longrightarrow>
              filter (\<lambda>t. timeBlock t = b) r = filter (\<lambda>t. timeBlock t = b) ts) \<and>
           arrayMove (filter (\<lambda>t. timeBlock t = timeBlock activeT) ts)
             (findIndex (\<lambda>t. task_id t = active_id ev)
                (filter (\<lambda>t. timeBlock t = timeBlock activeT) ts))
             (findIndex (\<lambda>t. task_id t = over_id ov)
                (filter (\<lambda>t. timeBlock t = timeBlock activeT) ts))
           = Some (filter (\<lambda>t. timeBlock t = timeBlock activeT) r)"
proof -
  have v: "getTasksByBlock now off ts (timeBlock activeT)
      = filter (\<lambda>t. timeBlock t = timeBlock activeT) ts"
    using assms(5) by (rule getTasksByBlock_all_visible)
  from assms(6) have ne: "findIndex (\<lambda>t. task_id t = active_id ev)
        (getTasksByBlock now off ts (timeBlock activeT))
      \<noteq> findIndex (\<lambda>t. task_id t = over_id ov) (getTasksByBlock now off ts (timeBlock activeT))"
    unfolding v .
  from handleDragEnd_move [OF assms(1-4) ne] show ?thesis unfolding v .
qed

text \<open>
  Claim C5, evaluated where the code leaves it. The morning lane holds a task completed
  on an earlier day, which the board hides, then the dragged task \<open>a\<close> (id 1), then the
  target \<open>b\<close> (id 2); the host is at UTC+8. In the lane's list the dragged task stands at
  index 1 and the target at index 2, and the array move from 1 to 2 gives \<open>h, b, a\<close>.
  \<open>handleDragEnd\<close> reads the indices 0 and 1 in the visible lane and applies them to the
  whole lane: it returns \<open>a, h, b\<close>. The hidden task has been moved, the dragged task still
  stands before the target, and the visible lane is what it was before the drop.
\<close>

theorem handleDragEnd_behind_hidden_task:
  "filter (\<lambda>t. timeBlock t = Morning)
      [\<lparr>task_id = ''0'', title = ''h'', categoryId = ''cat1'', timeBlock = Morning,
        status = Completed, completedAt = Some 1699800000000, createdAt = Some 4\<rparr>,
       \<lparr>task_id = ''1'', title = ''a'', categoryId = ''cat1'', timeBlock = Morning,
        status = Active, completedAt = None, createdAt = Some 5\<rparr>,
       \<lparr>task_id = ''2'', title = ''b'', categoryId = ''cat1'', timeBlock = Morning,
        status = Active, completedAt = None, createdAt = Some 6\<rparr>]
   = [\<lparr>task_id = ''0'', title = ''h'', categoryId = ''cat1'', timeBlock = Morning,
        status = Completed, completedAt = Some 1699800000000, createdAt = Some 4\<rparr>,
       \<lparr>task_id = ''1'', title = ''a'', categoryId = ''cat1'', timeBlock = Morning,
        status = Active, completedAt = None, createdAt = Some 5\<rparr>,
       \<lparr>task_id = ''2'', title = ''b'', categoryId = ''cat1'', timeBlock = Morning,
        status = Active, completedAt = None, createdAt = Some 6\<rparr>] \<and>
   findIndex (\<lambda>t. task_id t = ''1'')
      [\<lparr>task_id = ''0'', title = ''h'', categoryId = ''cat1'', timeBlock = Morning,
        status = Completed, completedAt = Some 1699800000000, createdAt = Some 4\<rparr>,
       \<lparr>task_id = ''1'', title = ''a'', categoryId = ''cat1'', timeBlock = Morning,
        status = Active, completedAt = None, createdAt = Some 5\<rparr>,
       \<lparr>task_id = ''2'', title = ''b'', categoryId = ''cat1'', timeBlock = Morning,
        status = Active, completedAt = None, createdAt = Some 6\<rparr>] = 1 \<and>
   findIndex (\<lambda>t. task_id t = ''2'')
      [\<lparr>task_id = ''0'', title = ''h'', categoryId = ''cat1'', timeBlock = Morning,
        status = Completed, completedAt = Some 1699800000000, createdAt = Some 4\<rparr>,
       \<lparr>task_id = ''1'', title = ''a'', categoryId = ''cat1'', timeBlock = Morning,
        status = Active, completedAt = None, createdAt = Some 5\<rparr>,
       \<lparr>task_id = ''2'', title = ''b'', categoryId = ''cat1'', timeBlock = Morning,
        status = Active, completedAt = None, createdAt = Some 6\<rparr>] = 2 \<and>
   arrayMove
      [\<lparr>task_id = ''0'', title = ''h'', categoryId = ''cat1'', timeBlock = Morning,
        status = Completed, completedAt = Some 1699800000000, createdAt = Some 4\<rparr>,
       \<lparr>task_id = ''1'', title = ''a'', categoryId = ''cat1'', timeBlock = Morning,
        status = Active, completedAt = None, createdAt = Some 5\<rparr>,
       \<lparr>task_id = ''2'', title = ''b'', categoryId = ''cat1'', timeBlock = Morning,
        status = Active, completedAt = None, createdAt = Some 6\<rparr>] 1 2
   = Some [\<lparr>task_id = ''0'', title = ''h'', categoryId = ''cat1'', timeBlock = Morning,
        status = Completed, completedAt = Some 1699800000000, createdAt = Some 4\<rparr>,
       \<lparr>task_id = ''2'', title = ''b'', categoryId = ''cat1'', timeBlock = Morning,
        status = Active, completedAt = None, createdAt = Some 6\<rparr>,
       \<lparr>task_id = ''1'', title = ''a'', categoryId = ''cat1'', timeBlock = Morning,
        status = Active, completedAt = None, createdAt = Some 5\<rparr>] \<and>
   getTasksByBlock 1699963200000 (- 480)
      [\<lparr>task_id = ''0'', title = ''h'', categoryId = ''cat1'', timeBlock = Morning,
        status = Completed, completedAt = Some 1699800000000, createdAt = Some 4\<rparr>,
       \<lparr>task_id = ''1'', title = ''a'', categoryId = ''cat1'', timeBlock = Morning,
        status = Active, completedAt = None, createdAt = Some 5\<rparr>,
       \<lparr>task_id = ''2'', title = ''b'', categoryId = ''cat1'', timeBlock = Morning,
        status = Active, completedAt = None, createdAt = Some 6\<rparr>] Morning
   = [\<lparr>task_id = ''1'', title = ''a'', categoryId = ''cat1'', timeBlock = Morning,
        status = Active, completedAt = None, createdAt = Some 5\<rparr>,
       \<lparr>task_id = ''2'', title = ''b'', categoryId = ''cat1'', timeBlock = Morning,
        status = Active, completedAt = None, createdAt = Some 6\<rparr>] \<and>
   handleDragEnd 1699963200000 (- 480)
      \<lparr>active_id = ''1'', over = Some \<lparr>over_id = ''2'', containerId = Some ''morning''\<rparr>\<rparr>
      [\<lparr>task_id = ''0'', title = ''h'', categoryId = ''cat1'', timeBlock = Morning,
        status = Completed, completedAt = Some 1699800000000, createdAt = Some 4\<rparr>,
       \<lparr>task_id = ''1'', title = ''a'', categoryId = ''cat1'', timeBlock = Morning,
        status = Active, completedAt = None, createdAt = Some 5\<rparr>,
       \<lparr>task_id = ''2'', title = ''b'', categoryId = ''cat1'', timeBlock = Morning,
        status = Active, completedAt = None, createdAt = Some 6\<rparr>]
   = Some [\<lparr>task_id = ''1'', title = ''a'', categoryId = ''cat1'', timeBlock = Morning,
        status = Active, completedAt = None, createdAt = Some 5\<rparr>,
       \<lparr>task_id = ''0'', title = ''h'', categoryId = ''cat1'', timeBlock = Morning,
        status = Completed, completedAt = Some 1699800000000, createdAt = Some 4\<rparr>,
       \<lparr>task_id = ''2'', title = ''b'', categoryId = ''cat1'', timeBlock = Morning,
        status = Active, completedAt = None, createdAt = Some 6\<rparr>] \<and>
   getTasksByBlock 1699963200000 (- 480)
      [\<lparr>task_id = ''1'', title = ''a'', categoryId = ''cat1'', timeBlock = Morning,
        status = Active, completedAt = None, createdAt = Some 5\<rparr>,
       \<lparr>task_id = ''0'', title = ''h'', categoryId = ''cat1'', timeBlock = Morning,
        status = Completed, completedAt = Some 1699800000000, createdAt = Some 4\<rparr>,
       \<lparr>task_id = ''2'', title = ''b'', categoryId = ''cat1'', timeBlock = Morning,
        status = Active, completedAt = None, createdAt = Some 6\<rparr>] Morning
   = [\<lparr>task_id = ''1'', title = ''a'', categoryId = ''cat1'', timeBlock = Morning,
        status = Active, completedAt = None, createdAt = Some 5\<rparr>,
       \<lparr>task_id = ''2'', title = ''b'', categoryId = ''cat1'', timeBlock = Morning,
        status = Active, completedAt = None, createdAt = Some 6\<rparr>]"
  by (simp add: handleDragEnd_def getTasksByBlock_def shouldHideTask_def truthy_def
      getBeijingTodayStart_def setHours0_def msPerDay_def arrayMove_def spliceStart_def Let_def)

section \<open>Unique ids: theorems\<close>

lemma task_ids_foldl:
  "map task_id (tasks (foldl apply_create st ops)) =
   map task_id (tasks st) @ map show_int (taskStamps ops)"
proof (induction ops arbitrary: st)
  case Nil
  show ?case by simp
next
  case (Cons op ops)
  show ?case
    by (cases op)
       (simp_all add: Cons.IH handleAddTask_def handleAddCategory_def handleAddNote_def Let_def)
qed

lemma category_ids_foldl:
  "map cat_id (categories (foldl apply_create st ops)) =
   map cat_id (categories st) @ map show_int (categoryStamps ops)"
proof (induction ops arbitrary: st)
  case Nil
  show ?case by simp
next
  case (Cons op ops)
  show ?case
    by (cases op)
       (simp_all add: Cons.IH handleAddTask_def handleAddCategory_def handleAddNote_def Let_def)
qed

lemma note_ids_foldl:
  "map note_id (quickNotes (foldl apply_create st ops)) =
   rev (map show_int (noteStamps ops)) @ map note_id (quickNotes st)"
proof (induction ops arbitrary: st)
  case Nil
  show ?case by simp
next
  case (Cons op ops)
  show ?case
    by (cases op)
       (simp_all add: Cons.IH handleAddTask_def handleAddCategory_def handleAddNote_def Let_def)
qed

lemma distinct_show_int: "distinct (map show_int xs) \<longleftrightarrow> distinct xs"
proof -
  have "inj_on show_int (set xs)" by (rule inj_onI) (rule show_int_inj)
  then show ?thesis by (simp add: distinct_map)
qed

lemma seeded_category_ids: "map cat_id (categories seededState) = [''cat1'', ''cat2'']"
  by (simp add: seededState_def DEFAULT_CATEGORIES_def)

lemma default_ids_not_stamps:
  "''cat1'' \<notin> set (map show_int xs)" "''cat2'' \<notin> set (map show_int xs)"
proof -
  have a: "show_int x \<noteq> ''cat1''" for x using show_int_not_cat [of x "''at1''"] by simp
  have b: "show_int x \<noteq> ''cat2''" for x using show_int_not_cat [of x "''at2''"] by simp
  show "''cat1'' \<notin> set (map show_int xs)"
  proof
    assume "''cat1'' \<in> set (map show_int xs)"
    then obtain x where "show_int x = ''cat1''" by (auto simp del: set_map simp: in_set_conv_nth)
    with a show False by blast
  qed
  show "''cat2'' \<notin> set (map show_int xs)"
  proof
    assume "''cat2'' \<in> set (map show_int xs)"
    then obtain x where "show_int x = ''cat2''" by (auto simp del: set_map simp: in_set_conv_nth)
    with b show False by blast
  qed
qed

lemma stamps_of_collection:
  "set (taskStamps ops) \<subseteq> set (map stampOf ops)"
  "set (categoryStamps ops) \<subseteq> set (map stampOf ops)"
  "set (noteStamps ops) \<subseteq> set (map stampOf ops)"
proof (induction ops)
  case Nil
  {
    case 1 show ?case by simp
  next
    case 2 show ?case by simp
  next
    case 3 show ?case by simp
  }
next
  case (Cons op ops)
  {
    case 1 show ?case using Cons.IH(1) by (cases op) auto
  next
    case 2 show ?case using Cons.IH(2) by (cases op) auto
  next
    case 3 show ?case using Cons.IH(3) by (cases op) auto
  }
qed

lemma distinct_stamps_of_collection:
  assumes "distinct (map stampOf ops)"
  shows "distinct (taskStamps ops)" "distinct (categoryStamps ops)" "distinct (noteStamps ops)"
  using assms
proof (induction ops)
  case Nil
  {
    case 1 show ?case by simp
  next
    case 2 show ?case by simp
  next
    case 3 show ?case by simp
  }
next
  case (Cons op ops)
  {
    case 1
    then show ?case using Cons.IH(1) stamps_of_collection(1) [of ops] by (cases op) auto
  next
    case 2
    then show ?case using Cons.IH(2) stamps_of_collection(2) [of ops] by (cases op) auto
  next
    case 3
    then show ?case using Cons.IH(3) stamps_of_collection(3) [of ops] by (cases op) auto
  }
qed

text \<open>
  Claim C6, as the code has it. An id is the decimal rendering of the clock reading of
  its create, so after any sequence of creates from the seeded state the ids are unique
  within each collection exactly when no two creates of the same collection read the
  same clock value; in particular they are unique when all creates of the sequence read
  different values, as they do when the clock strictly increases from one create to the
  next.
\<close>

theorem uniqueIds_run_creates:
  "(uniqueIds (run_creates ops) \<longleftrightarrow>
      distinct (taskStamps ops) \<and> distinct (categoryStamps ops) \<and> distinct (noteStamps ops)) \<and>
   (distinct (map stampOf ops) \<longrightarrow> uniqueIds (run_creates ops)) \<and>
   (sorted_wrt (<) (map stampOf ops) \<longrightarrow> uniqueIds (run_creates ops))"
proof -
  have t: "distinct (map task_id (tasks (run_creates ops))) \<longleftrightarrow> distinct (taskStamps ops)"
    by (simp add: run_creates_def task_ids_foldl seededState_def INITIAL_TASKS_def
        distinct_show_int del: map_map)
  have c: "distinct (map cat_id (categories (run_creates ops))) \<longleftrightarrow> distinct (categoryStamps ops)"
    unfolding run_creates_def category_ids_foldl seeded_category_ids
    using default_ids_not_stamps [of "categoryStamps ops"]
    by (simp add: distinct_show_int del: set_map)
  have n: "distinct (map note_id (quickNotes (run_creates ops))) \<longleftrightarrow> distinct (noteStamps ops)"
    by (simp add: run_creates_def note_ids_foldl seededState_def distinct_show_int
        del: map_map)
  have iff: "uniqueIds (run_creates ops) \<longleftrightarrow>
      distinct (taskStamps ops) \<and> distinct (categoryStamps ops) \<and> distinct (noteStamps ops)"
    unfolding uniqueIds_def t c n ..
  have d: "distinct (map stampOf ops) \<longrightarrow> uniqueIds (run_creates ops)"
    unfolding iff using distinct_stamps_of_collection [of ops] by blast
  have "sorted_wrt (<) (map stampOf ops) \<longrightarrow> distinct (map stampOf ops)"
    using strict_sorted_iff [of "map stampOf ops"] by blast
  with d have i: "sorted_wrt (<) (map stampOf ops) \<longrightarrow> uniqueIds (run_creates ops)" by blast
  from iff d i show ?thesis by blast
qed

theorem uniqueIds_run_creates_witness:
  "sorted_wrt (<) (map stampOf
     [AddTask 1699963200000 1699963200000 ''a'' ''cat1'' Morning,
      AddCategory 1699963200001 ''c'' Sky ''i'',
      AddTask 1699963200002 1699963200003 ''b'' ''cat1'' Evening,
      AddNote 1699963200004 1699963200004 (1 / 2) ''n'']) \<and>
   uniqueIds (run_creates
     [AddTask 1699963200000 1699963200000 ''a'' ''cat1'' Morning,
      AddCategory 1699963200001 ''c'' Sky ''i'',
      AddTask 1699963200002 1699963200003 ''b'' ''cat1'' Evening,
      AddNote 1699963200004 1699963200004 (1 / 2) ''n''])"
proof -
  have s: "sorted_wrt (<) (map stampOf
     [AddTask 1699963200000 1699963200000 ''a'' ''cat1'' Morning,
      AddCategory 1699963200001 ''c'' Sky ''i'',
      AddTask 1699963200002 1699963200003 ''b'' ''cat1'' Evening,
      AddNote 1699963200004 1699963200004 (1 / 2) ''n''])"
    by simp
  with uniqueIds_run_creates
    [of "[AddTask 1699963200000 1699963200000 ''a'' ''cat1'' Morning,
      AddCategory 1699963200001 ''c'' Sky ''i'',
      AddTask 1699963200002 1699963200003 ''b'' ''cat1'' Evening,
      AddNote 1699963200004 1699963200004 (1 / 2) ''n'']"]
  show ?thesis by blast
qed

text \<open>
  Claim C6 as stated fails for two creates of the same collection that read the same
  millisecond: both tasks get the id of that reading.
\<close>

theorem uniqueIds_counterexample:
  "\<not> uniqueIds (run_creates
     [AddTask 1699963200000 1699963200000 ''a'' ''cat1'' Morning,
      AddTask 1699963200000 1699963200000 ''b'' ''cat1'' Evening])"
  by (simp add: uniqueIds_def run_creates_def handleAddTask_def seededState_def
      INITIAL_TASKS_def Let_def)

section \<open>Deleting a category: theorems\<close>

lemma find_filter_other:
  "x \<noteq> ident \<Longrightarrow>
   find (\<lambda>c. cat_id c = x) (filter (\<lambda>c. cat_id c \<noteq> ident) cs) = find (\<lambda>c. cat_id c = x) cs"
  by (induction cs) auto

lemma find_filter_same:
  "find (\<lambda>c. cat_id c = ident) (filter (\<lambda>c. cat_id c \<noteq> ident) cs) = None"
  by (induction cs) auto

lemma fallback_presentation: "taskCardPresentation None = specialOrder"
  by (simp add: taskCardPresentation_def specialOrder_def THEME_STYLES_def)

text \<open>
  Claim C7. Deleting a category leaves the task list and the notes exactly as they were
  and removes from the category list the entries with that id and nothing else: the
  other categories stay, unchanged and in order, and every other id resolves to the
  category it resolved to before. A task whose \<open>categoryId\<close> is the deleted id, and any
  task whose \<open>categoryId\<close> resolves to no category, is rendered with the fallback
  presentation: slate theme, fallback label and icon, flagged special.
\<close>

theorem handleDeleteCategory_frame:
  "tasks (handleDeleteCategory ident st) = tasks st \<and>
   quickNotes (handleDeleteCategory ident st) = quickNotes st \<and>
   categories (handleDeleteCategory ident st) = filter (\<lambda>c. cat_id c \<noteq> ident) (categories st) \<and>
   (\<forall>c \<in> set (categories st). cat_id c \<noteq> ident \<longrightarrow> c \<in> set (categories (handleDeleteCategory ident st))) \<and>
   (\<forall>x. x \<noteq> ident \<longrightarrow>
      getCategory (categories (handleDeleteCategory ident st)) x = getCategory (categories st) x) \<and>
   (\<forall>t. categoryId t = ident \<longrightarrow>
      renderedPresentation (categories (handleDeleteCategory ident st)) t = specialOrder) \<and>
   (\<forall>cats t. getCategory cats (categoryId t) = None \<longrightarrow>
      renderedPresentation cats t = specialOrder)"
  by (simp add: handleDeleteCategory_def getCategory_def renderedPresentation_def
      find_filter_other find_filter_same fallback_presentation)

theorem handleDeleteCategory_frame_witness:
  "tasks (handleDeleteCategory ''cat1''
      \<lparr>categories = DEFAULT_CATEGORIES,
       tasks = [\<lparr>task_id = ''1'', title = ''a'', categoryId = ''cat1'', timeBlock = Morning,
                 status = Active, completedAt = None, createdAt = Some 5\<rparr>],
       quickNotes = []\<rparr>)
   = [\<lparr>task_id = ''1'', title = ''a'', categoryId = ''cat1'', timeBlock = Morning,
       status = Active, completedAt = None, createdAt = Some 5\<rparr>] \<and>
   map cat_id (categories (handleDeleteCategory ''cat1''
      \<lparr>categories = DEFAULT_CATEGORIES,
       tasks = [\<lparr>task_id = ''1'', title = ''a'', categoryId = ''cat1'', timeBlock = Morning,
                 status = Active, completedAt = None, createdAt = Some 5\<rparr>],
       quickNotes = []\<rparr>)) = [''cat2''] \<and>
   renderedPresentation (categories (handleDeleteCategory ''cat1''
      \<lparr>categories = DEFAULT_CATEGORIES,
       tasks = [\<lparr>task_id = ''1'', title = ''a'', categoryId = ''cat1'', timeBlock = Morning,
                 status = Active, completedAt = None, createdAt = Some 5\<rparr>],
       quickNotes = []\<rparr>))
     \<lparr>task_id = ''1'', title = ''a'', categoryId = ''cat1'', timeBlock = Morning,
      status = Active, completedAt = None, createdAt = Some 5\<rparr>
   = specialOrder"
proof -
  let ?t = "\<lparr>task_id = ''1'', title = ''a'', categoryId = ''cat1'', timeBlock = Morning,
            status = Active, completedAt = None, createdAt = Some 5\<rparr>"
  let ?st = "\<lparr>categories = DEFAULT_CATEGORIES, tasks = [?t], quickNotes = []\<rparr>"
  note h = handleDeleteCategory_frame [of "''cat1''" ?st]
  have a: "tasks (handleDeleteCategory ''cat1'' ?st) = tasks ?st"
    by (rule h [THEN conjunct1])
  have c: "categories (handleDeleteCategory ''cat1'' ?st)
      = filter (\<lambda>c. cat_id c \<noteq> ''cat1'') (categories ?st)"
    by (rule h [THEN conjunct2, THEN conjunct2, THEN conjunct1])
  have r: "\<forall>t. categoryId t = ''cat1'' \<longrightarrow>
      renderedPresentation (categories (handleDeleteCategory ''cat1'' ?st)) t = specialOrder"
    by (rule h [THEN conjunct2, THEN conjunct2, THEN conjunct2, THEN conjunct2,
          THEN conjunct2, THEN conjunct1])
  have r': "renderedPresentation (categories (handleDeleteCategory ''cat1'' ?st)) ?t = specialOrder"
    using r by simp
  have c': "map cat_id (categories (handleDeleteCategory ''cat1'' ?st)) = [''cat2'']"
    unfolding c by (simp add: DEFAULT_CATEGORIES_def)
  from a c' r' show ?thesis by simp
qed

section \<open>Order of the quick notes: theorems\<close>

lemma newestFirst_sortNotes: "newestFirst (sortNotes ns)"
proof -
  have "sorted (map (\<lambda>n. - note_createdAt n) (sort_key (\<lambda>n. - note_createdAt n) ns))"
    by (rule sorted_sort_key)
  then show ?thesis by (simp add: newestFirst_def sortNotes_def sorted_map)
qed

lemma newestFirst_Nil: "newestFirst []"
  by (simp add: newestFirst_def)

lemma mset_sortNotes: "mset (sortNotes ns) = mset ns"
  by (simp add: sortNotes_def)

lemma newestFirst_filter: "newestFirst ns \<Longrightarrow> newestFirst (filter P ns)"
  unfolding newestFirst_def by (rule sorted_wrt_filter)

text \<open>
  Without the proviso the order breaks: a note added while an older clock reading is in
  force (the clock was set back, or an imported note carries a later stamp) comes to
  stand before a newer one.
\<close>

lemma handleAddNote_older_breaks_order:
  "\<not> newestFirst (quickNotes (handleAddNote 20 20 (1 / 2) ''d''
      \<lparr>categories = [], tasks = [],
       quickNotes =
         [\<lparr>note_id = ''30'', note_content = ''b'', note_createdAt = 30, note_theme = Rose\<rparr>]\<rparr>))"
  by (simp add: handleAddNote_def Let_def newestFirst_def)

text \<open>
  Claim C10. The list set by the initial load is sorted newest first and holds the notes
  read from the store; an import that goes through replaces the list by the imported
  notes sorted newest first, and one that fails leaves it as it was; deleting a note
  keeps a sorted list sorted; and adding a note, which puts it in front, keeps a sorted
  list sorted provided its \<open>createdAt\<close> is at least that of every note already there.
  Deleting takes out the notes with the id and nothing else. Adding puts the new note,
  with the id, content and stamp it was given, in front of the list as it was and leaves
  categories and tasks alone; on a sorted list the result is sorted exactly when the
  proviso holds.
\<close>

theorem quickNotes_newestFirst:
  "newestFirst (initData_quickNotes dbNotes) \<and>
   (\<forall>ns. dbNotes = Some ns \<longrightarrow> mset (initData_quickNotes dbNotes) = mset ns) \<and>
   newestFirst (quickNotes (handleImportData True now newCats newTasks newNotes st)) \<and>
   mset (quickNotes (handleImportData True now newCats newTasks newNotes st)) = mset newNotes \<and>
   (newestFirst (quickNotes st) \<longrightarrow>
      newestFirst (quickNotes (handleImportData stored now newCats newTasks newNotes st))) \<and>
   (newestFirst (quickNotes st) \<longrightarrow> newestFirst (quickNotes (handleDeleteNote ident st))) \<and>
   (newestFirst (quickNotes st) \<and> (\<forall>n \<in> set (quickNotes st). note_createdAt n \<le> nowCreated) \<longrightarrow>
      newestFirst (quickNotes (handleAddNote nowId nowCreated random cont st))) \<and>
   handleImportData False now newCats newTasks newNotes st = st \<and>
   quickNotes (handleDeleteNote ident st) = filter (\<lambda>n. note_id n \<noteq> ident) (quickNotes st) \<and>
   quickNotes (handleAddNote nowId nowCreated random cont st) =
     \<lparr>note_id = show_int nowId, note_content = cont, note_createdAt = nowCreated,
      note_theme = THEMES ! nat \<lfloor>random * of_nat (length THEMES)\<rfloor>\<rparr> # quickNotes st \<and>
   categories (handleAddNote nowId nowCreated random cont st) = categories st \<and>
   tasks (handleAddNote nowId nowCreated random cont st) = tasks st \<and>
   (newestFirst (quickNotes st) \<longrightarrow>
      (newestFirst (quickNotes (handleAddNote nowId nowCreated random cont st)) \<longleftrightarrow>
       (\<forall>n \<in> set (quickNotes st). note_createdAt n \<le> nowCreated)))"
proof (intro conjI)
  show "newestFirst (initData_quickNotes dbNotes)"
    by (cases dbNotes) (simp_all add: initData_quickNotes_def newestFirst_sortNotes newestFirst_Nil)
  show "\<forall>ns. dbNotes = Some ns \<longrightarrow> mset (initData_quickNotes dbNotes) = mset ns"
    by (simp add: initData_quickNotes_def mset_sortNotes)
  show "newestFirst (quickNotes (handleImportData True now newCats newTasks newNotes st))"
    by (simp add: handleImportData_def Let_def newestFirst_sortNotes)
  show "mset (quickNotes (handleImportData True now newCats newTasks newNotes st)) = mset newNotes"
    by (simp add: handleImportData_def Let_def mset_sortNotes)
  show "newestFirst (quickNotes st) \<longrightarrow>
      newestFirst (quickNotes (handleImportData stored now newCats newTasks newNotes st))"
    by (simp add: handleImportData_def Let_def newestFirst_sortNotes)
  show "newestFirst (quickNotes st) \<longrightarrow> newestFirst (quickNotes (handleDeleteNote ident st))"
    by (simp add: handleDeleteNote_def newestFirst_filter)
  show "newestFirst (quickNotes st) \<and> (\<forall>n \<in> set (quickNotes st). note_createdAt n \<le> nowCreated) \<longrightarrow>
      newestFirst (quickNotes (handleAddNote nowId nowCreated random cont st))"
    by (simp add: handleAddNote_def Let_def newestFirst_def)
  show "handleImportData False now newCats newTasks newNotes st = st"
    by (simp add: handleImportData_def)
  show "quickNotes (handleDeleteNote ident st) = filter (\<lambda>n. note_id n \<noteq> ident) (quickNotes st)"
    by (simp add: handleDeleteNote_def)
  show "quickNotes (handleAddNote nowId nowCreated random cont st) =
     \<lparr>note_id = show_int nowId, note_content = cont, note_createdAt = nowCreated,
      note_theme = THEMES ! nat \<lfloor>random * of_nat (length THEMES)\<rfloor>\<rparr> # quickNotes st"
    by (simp add: handleAddNote_def Let_def)
  show "categories (handleAddNote nowId nowCreated random cont st) = categories st"
    by (simp add: handleAddNote_def Let_def)
  show "tasks (handleAddNote nowId nowCreated random cont st) = tasks st"
    by (simp add: handleAddNote_def Let_def)
  show "newestFirst (quickNotes st) \<longrightarrow>
      (newestFirst (quickNotes (handleAddNote nowId nowCreated random cont st)) \<longleftrightarrow>
       (\<forall>n \<in> set (quickNotes st). note_createdAt n \<le> nowCreated))"
    by (simp add: handleAddNote_def Let_def newestFirst_def)
qed

theorem quickNotes_newestFirst_witness:
  "map note_createdAt (initData_quickNotes (Some
      [\<lparr>note_id = ''10'', note_content = ''a'', note_createdAt = 10, note_theme = Sky\<rparr>,
       \<lparr>note_id = ''30'', note_content = ''b'', note_createdAt = 30, note_theme = Rose\<rparr>,
       \<lparr>note_id = ''20'', note_content = ''c'', note_createdAt = 20, note_theme = Amber\<rparr>]))
   = [30, 20, 10] \<and>
   newestFirst (quickNotes (handleAddNote 40 40 (1 / 2) ''d''
      \<lparr>categories = [], tasks = [],
       quickNotes =
         [\<lparr>note_id = ''30'', note_content = ''b'', note_createdAt = 30, note_theme = Rose\<rparr>,
          \<lparr>note_id = ''10'', note_content = ''a'', note_createdAt = 10, note_theme = Sky\<rparr>]\<rparr>)) \<and>
   newestFirst (quickNotes (handleDeleteNote ''30''
      \<lparr>categories = [], tasks = [],
       quickNotes =
         [\<lparr>note_id = ''30'', note_content = ''b'', note_createdAt = 30, note_theme = Rose\<rparr>,
          \<lparr>note_id = ''10'', note_content = ''a'', note_createdAt = 10, note_theme = Sky\<rparr>]\<rparr>)) \<and>
   map note_content (quickNotes (handleAddNote 40 40 (1 / 2) ''d''
      \<lparr>categories = [], tasks = [],
       quickNotes =
         [\<lparr>note_id = ''30'', note_content = ''b'', note_createdAt = 30, note_theme = Rose\<rparr>,
          \<lparr>note_id = ''10'', note_content = ''a'', note_createdAt = 10, note_theme = Sky\<rparr>]\<rparr>))
   = [''d'', ''b'', ''a''] \<and>
   map note_content (quickNotes (handleDeleteNote ''30''
      \<lparr>categories = [], tasks = [],
       quickNotes =
         [\<lparr>note_id = ''30'', note_content = ''b'', note_createdAt = 30, note_theme = Rose\<rparr>,
          \<lparr>note_id = ''10'', note_content = ''a'', note_createdAt = 10, note_theme = Sky\<rparr>]\<rparr>))
   = [''a'']"
proof -
  let ?st = "\<lparr>categories = [], tasks = [],
       quickNotes =
         [\<lparr>note_id = ''30'', note_content = ''b'', note_createdAt = 30, note_theme = Rose\<rparr>,
          \<lparr>note_id = ''10'', note_content = ''a'', note_createdAt = 10, note_theme = Sky\<rparr>]\<rparr>"
  have pre: "newestFirst (quickNotes ?st)" "\<forall>n \<in> set (quickNotes ?st). note_createdAt n \<le> 40"
    by (simp_all add: newestFirst_def)
  have a: "map note_createdAt (initData_quickNotes (Some
      [\<lparr>note_id = ''10'', note_content = ''a'', note_createdAt = 10, note_theme = Sky\<rparr>,
       \<lparr>note_id = ''30'', note_content = ''b'', note_createdAt = 30, note_theme = Rose\<rparr>,
       \<lparr>note_id = ''20'', note_content = ''c'', note_createdAt = 20, note_theme = Amber\<rparr>]))
   = [30, 20, 10]"
    by (simp add: initData_quickNotes_def sortNotes_def)
  note h = quickNotes_newestFirst [where st = ?st and nowCreated = 40 and nowId = 40
      and random = "1 / 2" and cont = "''d''" and ident = "''30''"]
  have d: "newestFirst (quickNotes ?st) \<longrightarrow> newestFirst (quickNotes (handleDeleteNote ''30'' ?st))"
    by (rule h [THEN conjunct2, THEN conjunct2, THEN conjunct2, THEN conjunct2, THEN conjunct2,
          THEN conjunct1])
  have ad: "newestFirst (quickNotes ?st) \<and> (\<forall>n \<in> set (quickNotes ?st). note_createdAt n \<le> 40) \<longrightarrow>
      newestFirst (quickNotes (handleAddNote 40 40 (1 / 2) ''d'' ?st))"
    by (rule h [THEN conjunct2, THEN conjunct2, THEN conjunct2, THEN conjunct2, THEN conjunct2,
          THEN conjunct2, THEN conjunct1])
  have de: "quickNotes (handleDeleteNote ''30'' ?st)
      = filter (\<lambda>n. note_id n \<noteq> ''30'') (quickNotes ?st)"
    by (rule h [THEN conjunct2, THEN conjunct2, THEN conjunct2, THEN conjunct2, THEN conjunct2,
          THEN conjunct2, THEN conjunct2, THEN conjunct2, THEN conjunct1])
  have pr: "quickNotes (handleAddNote 40 40 (1 / 2) ''d'' ?st) =
     \<lparr>note_id = show_int 40, note_content = ''d'', note_createdAt = 40,
      note_theme = THEMES ! nat \<lfloor>(1 / 2 :: rat) * of_nat (length THEMES)\<rfloor>\<rparr> # quickNotes ?st"
    by (rule h [THEN conjunct2, THEN conjunct2, THEN conjunct2, THEN conjunct2, THEN conjunct2,
          THEN conjunct2, THEN conjunct2, THEN conjunct2, THEN conjunct2, THEN conjunct1])
  from d pre(1) have s1: "newestFirst (quickNotes (handleDeleteNote ''30'' ?st))" by (rule mp)
  from ad pre have s2: "newestFirst (quickNotes (handleAddNote 40 40 (1 / 2) ''d'' ?st))" by simp
  have c1: "map note_content (quickNotes (handleAddNote 40 40 (1 / 2) ''d'' ?st)) = [''d'', ''b'', ''a'']"
    unfolding pr by simp
  have c2: "map note_content (quickNotes (handleDeleteNote ''30'' ?st)) = [''a'']"
    unfolding de by simp
  from a s1 s2 c1 c2 show ?thesis by (intro conjI)
qed

end
